theory Spec2Isabelle
  imports Complex_Main
begin

section \<open>The spaced-repetition service of the study-aid application\<close>

text \<open>
  This theory embeds \<^verbatim>\<open>src/frontend/lib/spacedRepetitionService.ts\<close> (class
  \<^verbatim>\<open>SpacedRepetitionService\<close>) and proves properties of its scheduling, its due and
  upcoming lists, its daily session statistics and its streak.

  Conventions of the embedding:
  \<^item> a JavaScript number that the code only ever produces as a whole number (quality,
    interval, repetitions, cardsReviewed, list limits) is an \<open>int\<close>; \<open>easeFactor\<close>,
    \<open>averageQuality\<close> and \<open>accuracy\<close> are \<open>real\<close>: arithmetic is exact, the rounding of
    IEEE doubles is not modelled; what is stored for a number beyond the largest double
    is added in the subsection on the range of \<^verbatim>\<open>Date\<close> and of numbers;
  \<^item> a \<^verbatim>\<open>Date\<close> is its \<^verbatim>\<open>getTime()\<close> value, an \<open>int\<close> of milliseconds since the
    epoch. The operations are first written for dates within the range of \<^verbatim>\<open>Date\<close>,
    which storage returns as they were written; what is stored for a date beyond the
    range is added in the same subsection;
  \<^item> \<^verbatim>\<open>new Date()\<close> is the parameter \<open>now\<close> (one instant for a whole call), and local
    time is UTC shifted by the parameter \<open>tz\<close> (milliseconds), so every local day has
    24 hours;
  \<^item> \<^verbatim>\<open>localStorage\<close> is passed explicitly: a function that calls \<^verbatim>\<open>setItem\<close>
    returns the new storage. A stored list is first a list of review or session
    records; a stored list of objects of another shape, which the code does not check,
    is added in the subsection on stored objects that are not review records.
\<close>

subsection \<open>Data model\<close>

record CardReview =
  cardId :: string
  studyPackId :: string
  quality :: int
  reviewDate :: int
  interval :: int
  easeFactor :: real
  repetitions :: int
  nextReview :: int

text \<open>Interface \<^verbatim>\<open>StudySession\<close>; its field \<^verbatim>\<open>studyPackId\<close> is \<open>sessionPackId\<close> here.\<close>

record StudySession =
  sessionPackId :: string
  date :: int
  cardsReviewed :: int
  averageQuality :: real

datatype Difficulty = easy | medium | hard

text \<open>Interface \<^verbatim>\<open>Flashcard\<close>; its field \<^verbatim>\<open>id\<close> is \<open>flashcardId\<close> here.\<close>

record Flashcard =
  flashcardId :: string
  question :: string
  answer :: string
  difficulty :: Difficulty

text \<open>
  The objects pushed by \<^verbatim>\<open>getDueCards\<close>: the flashcard (\<^verbatim>\<open>...card\<close>) and the four
  derived fields. \<open>lastReview = None\<close> is the source's \<^verbatim>\<open>null\<close>.
\<close>

record DueCard =
  dueFlashcard :: Flashcard
  lastReview :: "int option"
  dueNextReview :: int
  dueInterval :: int
  dueRepetitions :: int

text \<open>The objects pushed by \<^verbatim>\<open>getUpcomingCards\<close>.\<close>

record UpcomingCard =
  upcomingFlashcard :: Flashcard
  upcomingNextReview :: int
  upcomingInterval :: int

text \<open>The object returned by \<^verbatim>\<open>getTodayStats\<close>.\<close>

record TodayStats =
  reviewed :: int
  learned :: int
  accuracy :: real
  streak :: int

subsection \<open>Storage\<close>

text \<open>
  What \<^verbatim>\<open>localStorage.getItem\<close> finds under one key:
  \<^item> \<open>NoItem\<close>: \<^verbatim>\<open>null\<close> (or the empty string), the \<^verbatim>\<open>if (!stored) return []\<close> branch;
  \<^item> \<open>Unreadable\<close>: a string on which the \<^verbatim>\<open>try\<close> block throws, because
    \<^verbatim>\<open>JSON.parse\<close> rejects it or because the parsed value has no \<^verbatim>\<open>map\<close> or holds
    \<^verbatim>\<open>null\<close> where a record is read;
  \<^item> \<open>Items xs\<close>: the JSON text of the record list \<open>xs\<close>, which is what
    \<^verbatim>\<open>setItem(key, JSON.stringify(xs))\<close> stores.
\<close>

datatype 'a stored = NoItem | Unreadable | Items "'a list"

record localStorage =
  sr_reviews :: "CardReview stored"
  sr_sessions :: "StudySession stored"

definition emptyStorage :: localStorage where
  "emptyStorage = \<lparr>sr_reviews = NoItem, sr_sessions = NoItem\<rparr>"

definition getReviews :: "localStorage \<Rightarrow> CardReview list" where
  "getReviews ls = (case sr_reviews ls of NoItem \<Rightarrow> [] | Unreadable \<Rightarrow> [] | Items rs \<Rightarrow> rs)"

definition getSessions :: "localStorage \<Rightarrow> StudySession list" where
  "getSessions ls = (case sr_sessions ls of NoItem \<Rightarrow> [] | Unreadable \<Rightarrow> [] | Items ss \<Rightarrow> ss)"

subsection \<open>Library functions of JavaScript\<close>

text \<open>\<^verbatim>\<open>Math.round\<close> rounds to the nearest integer, a half upwards.\<close>

definition Math_round :: "real \<Rightarrow> int" where
  "Math_round x = \<lfloor>x + 1 / 2\<rfloor>"

definition msPerDay :: int where
  "msPerDay = 24 * 60 * 60 * 1000"

text \<open>\<^verbatim>\<open>d.setHours(0, 0, 0, 0)\<close>: the start of the local day of \<open>t\<close>.\<close>

definition setHoursZero :: "int \<Rightarrow> int \<Rightarrow> int" where
  "setHoursZero tz t = t - (t + tz) mod msPerDay"

text \<open>
  \<^verbatim>\<open>Array.prototype.sort\<close> with a comparator is stable; it is modelled as a stable
  insertion sort, which for a consistent comparator gives the one possible result.
\<close>

fun insertBy :: "('a \<Rightarrow> 'a \<Rightarrow> int) \<Rightarrow> 'a \<Rightarrow> 'a list \<Rightarrow> 'a list" where
  "insertBy cmp x [] = [x]"
| "insertBy cmp x (y # ys) = (if cmp x y \<le> 0 then x # y # ys else y # insertBy cmp x ys)"

definition sortBy :: "('a \<Rightarrow> 'a \<Rightarrow> int) \<Rightarrow> 'a list \<Rightarrow> 'a list" where
  "sortBy cmp xs = foldr (insertBy cmp) xs []"

text \<open>\<^verbatim>\<open>xs.slice(0, limit)\<close>: a negative \<open>limit\<close> counts from the end.\<close>

definition slice0 :: "int \<Rightarrow> 'a list \<Rightarrow> 'a list" where
  "slice0 limit xs =
     (if limit < 0 then take (nat (int (length xs) + limit)) xs else take (nat limit) xs)"

subsection \<open>Due and upcoming cards\<close>

text \<open>The predicate of \<^verbatim>\<open>reviews.find(r => r.cardId === id && r.studyPackId === pack)\<close>.\<close>

definition reviewOf :: "string \<Rightarrow> string \<Rightarrow> CardReview \<Rightarrow> bool" where
  "reviewOf cId packId r \<longleftrightarrow> cardId r = cId \<and> studyPackId r = packId"

definition toDueCard :: "int \<Rightarrow> Flashcard \<Rightarrow> CardReview option \<Rightarrow> DueCard" where
  "toDueCard now c review =
     \<lparr>dueFlashcard = c,
      lastReview = (case review of None \<Rightarrow> None | Some r \<Rightarrow> Some (reviewDate r)),
      dueNextReview = (case review of None \<Rightarrow> now | Some r \<Rightarrow> nextReview r),
      dueInterval = (case review of None \<Rightarrow> 0 | Some r \<Rightarrow> interval r),
      dueRepetitions = (case review of None \<Rightarrow> 0 | Some r \<Rightarrow> repetitions r)\<rparr>"

text \<open>The \<^verbatim>\<open>for (const card of flashcards)\<close> loop of \<^verbatim>\<open>getDueCards\<close>.\<close>

fun collectDue :: "CardReview list \<Rightarrow> int \<Rightarrow> string \<Rightarrow> Flashcard list \<Rightarrow> DueCard list" where
  "collectDue reviews now packId [] = []"
| "collectDue reviews now packId (c # cs) =
     (case find (reviewOf (flashcardId c) packId) reviews of
        None \<Rightarrow> toDueCard now c None # collectDue reviews now packId cs
      | Some r \<Rightarrow>
          if nextReview r \<le> now then toDueCard now c (Some r) # collectDue reviews now packId cs
          else collectDue reviews now packId cs)"

text \<open>The comparator of \<^verbatim>\<open>getDueCards\<close>: new cards first, then by due date.\<close>

definition dueCompare :: "DueCard \<Rightarrow> DueCard \<Rightarrow> int" where
  "dueCompare a b =
     (if lastReview a = None \<and> lastReview b \<noteq> None then - 1
      else if lastReview a \<noteq> None \<and> lastReview b = None then 1
      else dueNextReview a - dueNextReview b)"

definition getDueCards :: "localStorage \<Rightarrow> int \<Rightarrow> string \<Rightarrow> Flashcard list \<Rightarrow> DueCard list" where
  "getDueCards ls now packId flashcards =
     sortBy dueCompare (collectDue (getReviews ls) now packId flashcards)"

text \<open>The \<^verbatim>\<open>for (const card of flashcards)\<close> loop of \<^verbatim>\<open>getUpcomingCards\<close>.\<close>

fun collectUpcoming ::
  "CardReview list \<Rightarrow> int \<Rightarrow> string \<Rightarrow> Flashcard list \<Rightarrow> UpcomingCard list" where
  "collectUpcoming reviews now packId [] = []"
| "collectUpcoming reviews now packId (c # cs) =
     (case find (reviewOf (flashcardId c) packId) reviews of
        None \<Rightarrow> collectUpcoming reviews now packId cs
      | Some r \<Rightarrow>
          if nextReview r > now
          then \<lparr>upcomingFlashcard = c, upcomingNextReview = nextReview r,
                upcomingInterval = interval r\<rparr> # collectUpcoming reviews now packId cs
          else collectUpcoming reviews now packId cs)"

definition upcomingCompare :: "UpcomingCard \<Rightarrow> UpcomingCard \<Rightarrow> int" where
  "upcomingCompare a b = upcomingNextReview a - upcomingNextReview b"

text \<open>The caller passes \<open>limit\<close>; the source's default is 10.\<close>

definition getUpcomingCards ::
  "localStorage \<Rightarrow> int \<Rightarrow> string \<Rightarrow> Flashcard list \<Rightarrow> int \<Rightarrow> UpcomingCard list" where
  "getUpcomingCards ls now packId flashcards limit =
     slice0 limit (sortBy upcomingCompare (collectUpcoming (getReviews ls) now packId flashcards))"

subsection \<open>Recording a review\<close>

text \<open>
  Lines 76 to 124 of the source: from the existing review (if any) to \<^verbatim>\<open>newReview\<close>.
  \<open>oldInterval\<close> is \<^verbatim>\<open>existingReview?.interval || 1\<close>; a quality that matches no
  \<^verbatim>\<open>case\<close> of the \<^verbatim>\<open>switch\<close> leaves the interval as it is.
\<close>

definition newReview :: "CardReview option \<Rightarrow> int \<Rightarrow> string \<Rightarrow> string \<Rightarrow> int \<Rightarrow> CardReview" where
  "newReview existingReview now packId cId q =
     (let ef = (case existingReview of
                  Some e \<Rightarrow> max 1.3 (easeFactor e
                              + (0.1 - (5 - of_int q) * (0.08 + (5 - of_int q) * 0.02)))
                | None \<Rightarrow> 2.5);
          reps = (case existingReview of
                    Some e \<Rightarrow> if q < 3 then 0 else repetitions e + 1
                  | None \<Rightarrow> if q < 3 then 0 else 1);
          oldInterval = (case existingReview of
                           Some e \<Rightarrow> if interval e = 0 then 1 else interval e
                         | None \<Rightarrow> 1);
          base = (if reps = 0 then 1
                  else if reps = 1 then 6
                  else Math_round (of_int oldInterval * ef));
          iv = (if q = 1 then max 1 (Math_round (of_int base * 0.2))
                else if q = 2 then max 1 (Math_round (of_int base * 0.6))
                else if q = 3 then base
                else if q = 4 then Math_round (of_int base * 1.3)
                else base)
      in \<lparr>cardId = cId, studyPackId = packId, quality = q, reviewDate = now,
          interval = iv, easeFactor = ef, repetitions = reps,
          nextReview = now + iv * 24 * 60 * 60 * 1000\<rparr>)"

text \<open>
  \<^verbatim>\<open>sessions.find(...)\<close> returns the first matching object and the code assigns to
  its fields: in the list that is then saved, the first match is the one that changed.
\<close>

fun updateFirst :: "('a \<Rightarrow> bool) \<Rightarrow> ('a \<Rightarrow> 'a) \<Rightarrow> 'a list \<Rightarrow> 'a list" where
  "updateFirst P f [] = []"
| "updateFirst P f (x # xs) = (if P x then f x # xs else x # updateFirst P f xs)"

definition sessionOn :: "string \<Rightarrow> int \<Rightarrow> StudySession \<Rightarrow> bool" where
  "sessionOn packId today s \<longleftrightarrow> sessionPackId s = packId \<and> date s = today"

definition addToSession :: "int \<Rightarrow> StudySession \<Rightarrow> StudySession" where
  "addToSession q s =
     (let totalQuality = averageQuality s * of_int (cardsReviewed s) + of_int q
      in s\<lparr>cardsReviewed := cardsReviewed s + 1,
            averageQuality := totalQuality / of_int (cardsReviewed s + 1)\<rparr>)"

definition updateSessionStats :: "localStorage \<Rightarrow> int \<Rightarrow> int \<Rightarrow> string \<Rightarrow> int \<Rightarrow> localStorage" where
  "updateSessionStats ls tz now packId q =
     (let sessions = getSessions ls;
          today = setHoursZero tz now
      in case find (sessionOn packId today) sessions of
           Some todaySession \<Rightarrow>
             ls\<lparr>sr_sessions := Items (updateFirst (sessionOn packId today) (addToSession q) sessions)\<rparr>
         | None \<Rightarrow>
             ls\<lparr>sr_sessions := Items (sessions @
                   [\<lparr>sessionPackId = packId, date = today, cardsReviewed = 1,
                     averageQuality = of_int q\<rparr>])\<rparr>)"

definition recordReview :: "localStorage \<Rightarrow> int \<Rightarrow> int \<Rightarrow> string \<Rightarrow> string \<Rightarrow> int \<Rightarrow> localStorage" where
  "recordReview ls tz now packId cId q =
     (let reviews = getReviews ls;
          existingReview = find (reviewOf cId packId) reviews;
          updatedReviews = filter (\<lambda>r. \<not> reviewOf cId packId r) reviews
                             @ [newReview existingReview now packId cId q]
      in updateSessionStats (ls\<lparr>sr_reviews := Items updatedReviews\<rparr>) tz now packId q)"

subsection \<open>Streak, statistics of today, deletion\<close>

text \<open>The \<^verbatim>\<open>for (const session of sessions)\<close> loop of \<^verbatim>\<open>calculateStreak\<close>, with its \<^verbatim>\<open>break\<close>.\<close>

fun streakLoop :: "StudySession list \<Rightarrow> int \<Rightarrow> int \<Rightarrow> int" where
  "streakLoop [] streak' currentDate = streak'"
| "streakLoop (s # ss) streak' currentDate =
     (let daysDiff = (currentDate - date s) div (1000 * 60 * 60 * 24)
      in if daysDiff = streak' \<or> (streak' = 0 \<and> daysDiff \<le> 1)
         then streakLoop ss (streak' + 1) (date s)
         else streak')"

definition calculateStreak :: "localStorage \<Rightarrow> int \<Rightarrow> int \<Rightarrow> string \<Rightarrow> int" where
  "calculateStreak ls tz now packId =
     (let sessions = sortBy (\<lambda>a b. date b - date a)
                       (filter (\<lambda>s. sessionPackId s = packId) (getSessions ls))
      in if length sessions = 0 then 0
         else streakLoop sessions 0 (setHoursZero tz now))"

definition getTodayStats :: "localStorage \<Rightarrow> int \<Rightarrow> int \<Rightarrow> string \<Rightarrow> TodayStats" where
  "getTodayStats ls tz now packId =
     (let reviews = getReviews ls;
          today = setHoursZero tz now;
          tomorrow = today + 24 * 60 * 60 * 1000;
          todayReviews = filter (\<lambda>r. studyPackId r = packId
                                   \<and> reviewDate r \<ge> today \<and> reviewDate r < tomorrow) reviews;
          newCards = int (length (filter (\<lambda>r. repetitions r = 1) todayReviews));
          acc = (if length todayReviews > 0
                 then (\<Sum>r\<leftarrow>todayReviews. if quality r \<ge> 3 then 1 else 0)
                        / real (length todayReviews)
                 else 0)
      in \<lparr>reviewed = int (length todayReviews), learned = newCards, accuracy = acc,
          streak = calculateStreak ls tz now packId\<rparr>)"

definition deleteData :: "localStorage \<Rightarrow> string \<Rightarrow> localStorage" where
  "deleteData ls packId =
     ls\<lparr>sr_reviews := Items (filter (\<lambda>r. studyPackId r \<noteq> packId) (getReviews ls)),
        sr_sessions := Items (filter (\<lambda>s. sessionPackId s \<noteq> packId) (getSessions ls))\<rparr>"

subsection \<open>Sequences of reviews\<close>

text \<open>One call \<^verbatim>\<open>recordReview(studyPackId, cardId, quality)\<close>, with its time zone and clock.\<close>

record ReviewCall =
  callTz :: int
  callNow :: int
  callPack :: string
  callCard :: string
  callQuality :: int

fun runReviews :: "ReviewCall list \<Rightarrow> localStorage \<Rightarrow> localStorage" where
  "runReviews [] ls = ls"
| "runReviews (c # cs) ls =
     runReviews cs (recordReview ls (callTz c) (callNow c) (callPack c) (callCard c) (callQuality c))"

subsection \<open>The range of \<^verbatim>\<open>Date\<close> and of numbers\<close>

text \<open>
  The time value of a \<^verbatim>\<open>Date\<close> is at most 8.64e15 milliseconds either side of the
  epoch. Beyond that \<^verbatim>\<open>new Date(t)\<close> is an Invalid Date (\<open>None\<close>).
\<close>

definition maxTime :: int where
  "maxTime = 8640000000000000"

definition newDate :: "int \<Rightarrow> int option" where
  "newDate t = (if - maxTime \<le> t \<and> t \<le> maxTime then Some t else None)"

text \<open>
  \<^verbatim>\<open>JSON.stringify\<close> writes an Invalid Date as \<^verbatim>\<open>null\<close>, and \<^verbatim>\<open>new Date(null)\<close> in
  \<^verbatim>\<open>getReviews\<close> is the epoch.
\<close>

definition readBack :: "int option \<Rightarrow> int" where
  "readBack d = (case d of Some t \<Rightarrow> t | None \<Rightarrow> 0)"

text \<open>
  A number is at most the largest double, and a larger result is \<^verbatim>\<open>Infinity\<close>, which
  \<^verbatim>\<open>JSON.stringify\<close> writes as \<^verbatim>\<open>null\<close>. The two lines that compute with the interval
  of a stored review (\<^verbatim>\<open>review?.interval || 0\<close> on line 36 and
  \<^verbatim>\<open>existingReview?.interval || 1\<close> on line 93) take \<^verbatim>\<open>null\<close> as they take 0, and 0 is
  the interval that the record holds here for \<^verbatim>\<open>null\<close>; line 62 only copies the field.
  Below the largest double the arithmetic stays exact here.
\<close>

definition maxNumber :: int where
  "maxNumber = 2 ^ 1024 - 2 ^ 971"

text \<open>
  \<^verbatim>\<open>recordReview\<close> makes \<^verbatim>\<open>nextReview\<close> with \<^verbatim>\<open>new Date(...)\<close> on line 113 and writes
  the list with \<^verbatim>\<open>JSON.stringify\<close> on line 129. \<open>storeReview r\<close> is the record that the
  next \<^verbatim>\<open>getReviews\<close> returns for \<open>r\<close>, and \<open>recordReviewStored\<close> is \<^verbatim>\<open>recordReview\<close>
  with the reviews as they are read back. Where every date and interval is in range it
  is \<open>recordReview\<close> (lemma \<open>recordReviewStored_in_range\<close>).
\<close>

definition storeReview :: "CardReview \<Rightarrow> CardReview" where
  "storeReview r =
     r\<lparr>reviewDate := readBack (newDate (reviewDate r)),
       nextReview := readBack (newDate (nextReview r)),
       interval := (if interval r \<le> maxNumber then interval r else 0)\<rparr>"

definition recordReviewStored ::
  "localStorage \<Rightarrow> int \<Rightarrow> int \<Rightarrow> string \<Rightarrow> string \<Rightarrow> int \<Rightarrow> localStorage" where
  "recordReviewStored ls tz now packId cId q =
     (let written = recordReview ls tz now packId cId q
      in written\<lparr>sr_reviews := Items (map storeReview (getReviews written))\<rparr>)"

fun runReviewsStored :: "ReviewCall list \<Rightarrow> localStorage \<Rightarrow> localStorage" where
  "runReviewsStored [] ls = ls"
| "runReviewsStored (c # cs) ls =
     runReviewsStored cs
       (recordReviewStored ls (callTz c) (callNow c) (callPack c) (callCard c) (callQuality c))"

subsection \<open>Stored objects that are not review records\<close>

text \<open>
  \<^verbatim>\<open>JSON.parse\<close> accepts a list of any objects, and \<^verbatim>\<open>getReviews\<close> keeps each object
  as it is but for the two date fields, which become \<^verbatim>\<open>new Date(field)\<close>; nothing
  checks the object against \<^verbatim>\<open>CardReview\<close>. \<open>ParsedReview\<close> is such an object with the
  fields that \<^verbatim>\<open>getDueCards\<close> and \<^verbatim>\<open>getUpcomingCards\<close> read. A field that the object
  lacks is \<open>None\<close> (\<^verbatim>\<open>undefined\<close>); a date that \<^verbatim>\<open>new Date\<close> cannot read is \<open>None\<close> (an
  Invalid Date); a field that the object has is of the type that \<^verbatim>\<open>CardReview\<close> gives it.
\<close>

record ParsedReview =
  parsedCardId :: "string option"
  parsedStudyPackId :: "string option"
  parsedReviewDate :: "int option"
  parsedNextReview :: "int option"
  parsedInterval :: "int option"
  parsedRepetitions :: "int option"

text \<open>
  The objects pushed by \<^verbatim>\<open>getDueCards\<close>. \<^verbatim>\<open>lastReview\<close> is \<^verbatim>\<open>null\<close> (\<open>None\<close>) for a
  card with no review, and otherwise a \<^verbatim>\<open>Date\<close> object, which is truthy whether valid
  (\<open>Some (Some t)\<close>) or invalid (\<open>Some None\<close>). \<^verbatim>\<open>nextReview\<close> of a pushed object is
  always a valid date: \<open>now\<close>, or a date that compared as not after \<open>now\<close>.
\<close>

record ParsedDueCard =
  parsedDueFlashcard :: Flashcard
  parsedLastReview :: "int option option"
  parsedDueNextReview :: int
  parsedDueInterval :: int
  parsedDueRepetitions :: int

record ParsedUpcomingCard =
  parsedUpcomingFlashcard :: Flashcard
  parsedUpcomingNextReview :: int
  parsedUpcomingInterval :: "int option"

definition parsedReviewOf :: "string \<Rightarrow> string \<Rightarrow> ParsedReview \<Rightarrow> bool" where
  "parsedReviewOf cId packId r \<longleftrightarrow>
     parsedCardId r = Some cId \<and> parsedStudyPackId r = Some packId"

text \<open>\<^verbatim>\<open>review?.interval || 0\<close>: \<^verbatim>\<open>undefined\<close> and 0 both give 0.\<close>

definition orZero :: "int option \<Rightarrow> int" where
  "orZero v = (case v of None \<Rightarrow> 0 | Some n \<Rightarrow> n)"

text \<open>
  Lines 23 to 48 on a list of such objects. A comparison with an Invalid Date is false,
  so an object with no readable \<^verbatim>\<open>nextReview\<close> fails \<^verbatim>\<open>new Date(review.nextReview) <= now\<close>.
\<close>

fun collectDueParsed ::
  "ParsedReview list \<Rightarrow> int \<Rightarrow> string \<Rightarrow> Flashcard list \<Rightarrow> ParsedDueCard list" where
  "collectDueParsed reviews now packId [] = []"
| "collectDueParsed reviews now packId (c # cs) =
     (case find (parsedReviewOf (flashcardId c) packId) reviews of
        None \<Rightarrow>
          \<lparr>parsedDueFlashcard = c, parsedLastReview = None, parsedDueNextReview = now,
           parsedDueInterval = 0, parsedDueRepetitions = 0\<rparr>
            # collectDueParsed reviews now packId cs
      | Some r \<Rightarrow>
          (case parsedNextReview r of
             None \<Rightarrow> collectDueParsed reviews now packId cs
           | Some t \<Rightarrow>
               if t \<le> now
               then \<lparr>parsedDueFlashcard = c, parsedLastReview = Some (parsedReviewDate r),
                     parsedDueNextReview = t, parsedDueInterval = orZero (parsedInterval r),
                     parsedDueRepetitions = orZero (parsedRepetitions r)\<rparr>
                      # collectDueParsed reviews now packId cs
               else collectDueParsed reviews now packId cs))"

definition dueCompareParsed :: "ParsedDueCard \<Rightarrow> ParsedDueCard \<Rightarrow> int" where
  "dueCompareParsed a b =
     (if parsedLastReview a = None \<and> parsedLastReview b \<noteq> None then - 1
      else if parsedLastReview a \<noteq> None \<and> parsedLastReview b = None then 1
      else parsedDueNextReview a - parsedDueNextReview b)"

definition getDueCardsParsed ::
  "ParsedReview list \<Rightarrow> int \<Rightarrow> string \<Rightarrow> Flashcard list \<Rightarrow> ParsedDueCard list" where
  "getDueCardsParsed reviews now packId flashcards =
     sortBy dueCompareParsed (collectDueParsed reviews now packId flashcards)"

text \<open>
  Lines 50 to 70 on a list of such objects: an Invalid Date also fails
  \<^verbatim>\<open>new Date(review.nextReview) > now\<close>.
\<close>

fun collectUpcomingParsed ::
  "ParsedReview list \<Rightarrow> int \<Rightarrow> string \<Rightarrow> Flashcard list \<Rightarrow> ParsedUpcomingCard list" where
  "collectUpcomingParsed reviews now packId [] = []"
| "collectUpcomingParsed reviews now packId (c # cs) =
     (case find (parsedReviewOf (flashcardId c) packId) reviews of
        None \<Rightarrow> collectUpcomingParsed reviews now packId cs
      | Some r \<Rightarrow>
          (case parsedNextReview r of
             None \<Rightarrow> collectUpcomingParsed reviews now packId cs
           | Some t \<Rightarrow>
               if t > now
               then \<lparr>parsedUpcomingFlashcard = c, parsedUpcomingNextReview = t,
                     parsedUpcomingInterval = parsedInterval r\<rparr>
                      # collectUpcomingParsed reviews now packId cs
               else collectUpcomingParsed reviews now packId cs))"

definition upcomingCompareParsed :: "ParsedUpcomingCard \<Rightarrow> ParsedUpcomingCard \<Rightarrow> int" where
  "upcomingCompareParsed a b = parsedUpcomingNextReview a - parsedUpcomingNextReview b"

definition getUpcomingCardsParsed ::
  "ParsedReview list \<Rightarrow> int \<Rightarrow> string \<Rightarrow> Flashcard list \<Rightarrow> int \<Rightarrow> ParsedUpcomingCard list" where
  "getUpcomingCardsParsed reviews now packId flashcards limit =
     slice0 limit (sortBy upcomingCompareParsed
       (collectUpcomingParsed reviews now packId flashcards))"

text \<open>A review record, and the objects pushed for it, seen as such objects.\<close>

definition asParsed :: "CardReview \<Rightarrow> ParsedReview" where
  "asParsed r =
     \<lparr>parsedCardId = Some (cardId r), parsedStudyPackId = Some (studyPackId r),
      parsedReviewDate = Some (reviewDate r), parsedNextReview = Some (nextReview r),
      parsedInterval = Some (interval r), parsedRepetitions = Some (repetitions r)\<rparr>"

definition asParsedDue :: "DueCard \<Rightarrow> ParsedDueCard" where
  "asParsedDue d =
     \<lparr>parsedDueFlashcard = dueFlashcard d,
      parsedLastReview = (case lastReview d of None \<Rightarrow> None | Some t \<Rightarrow> Some (Some t)),
      parsedDueNextReview = dueNextReview d, parsedDueInterval = dueInterval d,
      parsedDueRepetitions = dueRepetitions d\<rparr>"

definition asParsedUpcoming :: "UpcomingCard \<Rightarrow> ParsedUpcomingCard" where
  "asParsedUpcoming u =
     \<lparr>parsedUpcomingFlashcard = upcomingFlashcard u,
      parsedUpcomingNextReview = upcomingNextReview u,
      parsedUpcomingInterval = Some (upcomingInterval u)\<rparr>"

subsection \<open>Predicates and data used in the statements\<close>

text \<open>
  A stored review is in order when its review date is a valid date and either its
  interval and its next review were both written as \<^verbatim>\<open>null\<close>, or its interval is a
  number of at least one day and its next review is what storage returns for the date
  that many days after the review.
\<close>

definition storedOk :: "CardReview \<Rightarrow> bool" where
  "storedOk r \<longleftrightarrow>
     - maxTime \<le> reviewDate r \<and> reviewDate r \<le> maxTime
     \<and> (interval r = 0 \<and> nextReview r = 0
        \<or> 1 \<le> interval r \<and> interval r \<le> maxNumber
          \<and> nextReview r = readBack (newDate (reviewDate r + interval r * msPerDay)))"

text \<open>The key of a daily session record: the study pack and the day.\<close>

definition sessionKey :: "StudySession \<Rightarrow> string \<times> int" where
  "sessionKey s = (sessionPackId s, date s)"

definition sessionsOk :: "StudySession list \<Rightarrow> bool" where
  "sessionsOk ss \<longleftrightarrow> distinct (map sessionKey ss) \<and> list_all (\<lambda>s. 1 \<le> cardsReviewed s) ss"

text \<open>
  The storage with no history in place of what cannot be read: every \<open>Unreadable\<close> item
  is taken as absent.
\<close>

definition coldStart :: "localStorage \<Rightarrow> localStorage" where
  "coldStart ls =
     ls\<lparr>sr_reviews := (case sr_reviews ls of Unreadable \<Rightarrow> NoItem | x \<Rightarrow> x),
        sr_sessions := (case sr_sessions ls of Unreadable \<Rightarrow> NoItem | x \<Rightarrow> x)\<rparr>"

text \<open>
  A card of pack \<open>p\<close> after two good reviews: repetitions 2, ease factor 2.5, interval
  6 days.
\<close>

definition secondReview :: CardReview where
  "secondReview = \<lparr>cardId = ''c'', studyPackId = ''p'', quality = 3, reviewDate = 0,
     interval = 6, easeFactor = 2.5, repetitions = 2, nextReview = 518400000\<rparr>"

definition secondReviewStorage :: localStorage where
  "secondReviewStorage = \<lparr>sr_reviews = Items [secondReview], sr_sessions = NoItem\<rparr>"


text \<open>
  Three reviews of pack \<open>p\<close> on three consecutive days (UTC): card \<open>a\<close> twice with
  quality 4, then card \<open>b\<close> with quality 3; and the storage they leave.
\<close>

definition threeDayCalls :: "ReviewCall list" where
  "threeDayCalls =
     [\<lparr>callTz = 0, callNow = 1000, callPack = ''p'', callCard = ''a'', callQuality = 4\<rparr>,
      \<lparr>callTz = 0, callNow = 86401000, callPack = ''p'', callCard = ''a'', callQuality = 4\<rparr>,
      \<lparr>callTz = 0, callNow = 172801000, callPack = ''p'', callCard = ''b'', callQuality = 3\<rparr>]"

definition threeDayStorage :: localStorage where
  "threeDayStorage =
     \<lparr>sr_reviews = Items
        [\<lparr>cardId = ''a'', studyPackId = ''p'', quality = 4, reviewDate = 86401000,
          interval = 26, easeFactor = 2.5, repetitions = 2, nextReview = 2332801000\<rparr>,
         \<lparr>cardId = ''b'', studyPackId = ''p'', quality = 3, reviewDate = 172801000,
          interval = 6, easeFactor = 2.5, repetitions = 1, nextReview = 691201000\<rparr>],
      sr_sessions = Items
        [\<lparr>sessionPackId = ''p'', date = 0, cardsReviewed = 1, averageQuality = 4\<rparr>,
         \<lparr>sessionPackId = ''p'', date = 86400000, cardsReviewed = 1, averageQuality = 4\<rparr>,
         \<lparr>sessionPackId = ''p'', date = 172800000, cardsReviewed = 1, averageQuality = 3\<rparr>]\<rparr>"

text \<open>A storage whose only session record is of day 0: two cards, mean quality 3.5.\<close>

definition oneSessionStorage :: localStorage where
  "oneSessionStorage =
     \<lparr>sr_reviews = NoItem,
      sr_sessions = Items
        [\<lparr>sessionPackId = ''p'', date = 0, cardsReviewed = 2, averageQuality = 3.5\<rparr>]\<rparr>"

text \<open>A deck of three flashcards; \<open>n\<close> is never reviewed in the examples.\<close>

definition flashcardOf :: "string \<Rightarrow> Flashcard" where
  "flashcardOf i = \<lparr>flashcardId = i, question = ''q'', answer = ''a'', difficulty = medium\<rparr>"

definition exampleDeck :: "Flashcard list" where
  "exampleDeck = [flashcardOf ''a'', flashcardOf ''b'', flashcardOf ''n'']"

text \<open>Fifteen reviews of one card, each with quality 4.\<close>

definition easyCall :: ReviewCall where
  "easyCall = \<lparr>callTz = 0, callNow = 1000, callPack = ''p'', callCard = ''a'', callQuality = 4\<rparr>"

definition fifteenEasyCalls :: "ReviewCall list" where
  "fifteenEasyCalls =
     [easyCall, easyCall, easyCall, easyCall, easyCall, easyCall, easyCall, easyCall,
      easyCall, easyCall, easyCall, easyCall, easyCall, easyCall, easyCall]"

text \<open>
  What \<^verbatim>\<open>getReviews\<close> returns for the stored text
  \<^verbatim>\<open>[{"cardId":"a","studyPackId":"p"}]\<close>: one object, with no dates.
\<close>

definition shapelessReviews :: "ParsedReview list" where
  "shapelessReviews =
     [\<lparr>parsedCardId = Some ''a'', parsedStudyPackId = Some ''p'', parsedReviewDate = None,
       parsedNextReview = None, parsedInterval = None, parsedRepetitions = None\<rparr>]"

text \<open>A storage in which neither item can be read.\<close>

definition unreadableStorage :: localStorage where
  "unreadableStorage = \<lparr>sr_reviews = Unreadable, sr_sessions = Unreadable\<rparr>"

section \<open>Properties\<close>

subsection \<open>What a call of \<^verbatim>\<open>recordReview\<close> stores\<close>

lemma getReviews_updateSessionStats:
  "getReviews (updateSessionStats ls tz now p q) = getReviews ls"
  by (simp add: updateSessionStats_def getReviews_def Let_def split: option.splits)

lemma getReviews_recordReview:
  "getReviews (recordReview ls tz now p c q) =
     filter (\<lambda>r. \<not> reviewOf c p r) (getReviews ls)
       @ [newReview (find (reviewOf c p) (getReviews ls)) now p c q]"
  by (simp add: recordReview_def Let_def getReviews_updateSessionStats)
     (simp add: getReviews_def)

lemma find_filter_not:
  "find P (filter (\<lambda>x. \<not> P x) xs @ ys) = find P ys"
  by (induction xs) auto

lemma cardId_newReview: "cardId (newReview e now p c q) = c"
  by (simp add: newReview_def Let_def)

lemma studyPackId_newReview: "studyPackId (newReview e now p c q) = p"
  by (simp add: newReview_def Let_def)


lemma reviewDate_newReview: "reviewDate (newReview e now p c q) = now"
  by (simp add: newReview_def Let_def)

lemma reviewOf_newReview: "reviewOf c p (newReview e now p c q)"
  by (simp add: reviewOf_def cardId_newReview studyPackId_newReview)

lemma find_recordReview:
  "find (reviewOf c p) (getReviews (recordReview ls tz now p c q)) =
     Some (newReview (find (reviewOf c p) (getReviews ls)) now p c q)"
  by (simp add: getReviews_recordReview find_filter_not reviewOf_newReview)

lemma easeFactor_newReview:
  "easeFactor (newReview e now p c q) =
     (case e of
        Some old \<Rightarrow>
          max 1.3 (easeFactor old + (0.1 - (5 - of_int q) * (0.08 + (5 - of_int q) * 0.02)))
      | None \<Rightarrow> 2.5)"
  by (simp add: newReview_def Let_def)

lemma repetitions_newReview:
  "repetitions (newReview e now p c q) =
     (case e of
        Some old \<Rightarrow> if q < 3 then 0 else repetitions old + 1
      | None \<Rightarrow> if q < 3 then 0 else 1)"
  by (simp add: newReview_def Let_def)

lemma interval_newReview:
  "interval (newReview e now p c q) =
     (let reps = repetitions (newReview e now p c q);
          ef = easeFactor (newReview e now p c q);
          oldInterval = (case e of
                           Some old \<Rightarrow> if interval old = 0 then 1 else interval old
                         | None \<Rightarrow> 1);
          base = (if reps = 0 then 1 else if reps = 1 then 6
                  else Math_round (of_int oldInterval * ef))
      in if q = 1 then max 1 (Math_round (of_int base * 0.2))
         else if q = 2 then max 1 (Math_round (of_int base * 0.6))
         else if q = 3 then base
         else if q = 4 then Math_round (of_int base * 1.3)
         else base)"
  by (simp add: newReview_def Let_def)

lemma nextReview_newReview:
  "nextReview (newReview e now p c q) =
     reviewDate (newReview e now p c q) + interval (newReview e now p c q) * msPerDay"
  by (simp add: newReview_def Let_def msPerDay_def)

text \<open>
  Claim C1. For a quality from 1 to 4, the review that \<^verbatim>\<open>recordReview\<close> stores for
  the card has ease factor 2.5 when the card had no review, and otherwise the larger of
  1.3 and the old ease factor plus \<open>0.1 - (5 - q) * (0.08 + (5 - q) * 0.02)\<close>; its
  repetitions are 0 when the quality is below 3, and otherwise the old repetitions plus
  one (1 when the card had no review).
\<close>

theorem recordReview_easeFactor_repetitions:
  assumes "1 \<le> q" and "q \<le> 4"
  shows "\<exists>r. find (reviewOf c p) (getReviews (recordReview ls tz now p c q)) = Some r
    \<and> easeFactor r =
        (case find (reviewOf c p) (getReviews ls) of
           None \<Rightarrow> 2.5
         | Some old \<Rightarrow>
             max 1.3 (easeFactor old + (0.1 - (5 - of_int q) * (0.08 + (5 - of_int q) * 0.02))))
    \<and> repetitions r =
        (if q < 3 then 0
         else case find (reviewOf c p) (getReviews ls) of
                None \<Rightarrow> 1
              | Some old \<Rightarrow> repetitions old + 1)"
  by (simp add: find_recordReview easeFactor_newReview repetitions_newReview
      split: option.splits)

text \<open>At quality 2 on the card of \<open>secondReviewStorage\<close>: ease factor 2.18, repetitions 0.\<close>

theorem recordReview_easeFactor_repetitions_witness:
  "(1::int) \<le> 2 \<and> (2::int) \<le> 4
   \<and> (\<exists>r. find (reviewOf ''c'' ''p'')
         (getReviews (recordReview secondReviewStorage 0 0 ''p'' ''c'' 2)) = Some r
       \<and> easeFactor r = 2.18 \<and> repetitions r = 0)"
  using recordReview_easeFactor_repetitions [of 2 "''c''" "''p''" secondReviewStorage 0 0]
  by (simp add: getReviews_def reviewOf_def secondReview_def secondReviewStorage_def)

text \<open>
  Claim C2. For a card with no review, \<^verbatim>\<open>recordReview\<close> with quality 4 stores
  repetitions 1 and the interval \<open>round (6 * 1.3) = 8\<close> days: the factor of quality 4
  is applied to the base interval 6 of the first repetition. The next review is
  \<open>now + 8 * 24 * 60 * 60 * 1000\<close> milliseconds.
\<close>

theorem first_review_easy:
  assumes "find (reviewOf c p) (getReviews ls) = None"
  shows "find (reviewOf c p) (getReviews (recordReview ls tz now p c 4)) =
     Some \<lparr>cardId = c, studyPackId = p, quality = 4, reviewDate = now,
           interval = Math_round (6 * 1.3), easeFactor = 2.5, repetitions = 1,
           nextReview = now + 8 * 24 * 60 * 60 * 1000\<rparr>
     \<and> Math_round (6 * 1.3) = 8"
  using assms by (simp add: find_recordReview newReview_def Math_round_def)

theorem first_review_easy_witness:
  "find (reviewOf ''c'' ''p'') (getReviews emptyStorage) = None
   \<and> find (reviewOf ''c'' ''p'') (getReviews (recordReview emptyStorage 0 1000 ''p'' ''c'' 4)) =
       Some \<lparr>cardId = ''c'', studyPackId = ''p'', quality = 4, reviewDate = 1000,
             interval = 8, easeFactor = 2.5, repetitions = 1, nextReview = 691201000\<rparr>"
proof -
  have e: "find (reviewOf ''c'' ''p'') (getReviews emptyStorage) = None"
    by (simp add: getReviews_def emptyStorage_def)
  show ?thesis
    using first_review_easy [OF e, of 0 1000] e by simp
qed

text \<open>
  The scenario of claim C3 on the code: repetitions 2, ease factor 2.5, interval 6,
  reviewed with quality 3. The stored interval is 14 days, not \<open>round (6 * 2.5) = 15\<close>.
\<close>

theorem good_review_counterexample:
  "map interval (getReviews (recordReview secondReviewStorage 0 0 ''p'' ''c'' 3)) = [14]
   \<and> Math_round (6 * 2.5) = 15"
  by (simp add: getReviews_recordReview)
     (simp add: getReviews_def secondReview_def secondReviewStorage_def reviewOf_def
        newReview_def Math_round_def)

text \<open>
  Claim C3, amended. For a card whose review has repetitions 2, ease factor 2.5 and
  interval 6, \<^verbatim>\<open>recordReview\<close> with quality 3 first lowers the ease factor to
  \<open>2.5 + (0.1 - 2 * (0.08 + 2 * 0.02)) = 2.36\<close> and multiplies the old interval by this
  new factor: the stored interval is \<open>round (6 * 2.36) = 14\<close> days, with repetitions 3;
  quality 3 changes nothing further.
\<close>

theorem good_review_third_repetition:
  assumes "find (reviewOf c p) (getReviews ls) = Some old"
    and "repetitions old = 2" and "easeFactor old = 2.5" and "interval old = 6"
  shows "\<exists>r. find (reviewOf c p) (getReviews (recordReview ls tz now p c 3)) = Some r
     \<and> easeFactor r = 2.36 \<and> repetitions r = 3
     \<and> interval r = Math_round (6 * 2.36) \<and> Math_round (6 * 2.36) = 14"
proof -
  let ?r = "newReview (Some old) now p c 3"
  have ef: "easeFactor ?r = 2.36"
    unfolding easeFactor_newReview option.case assms(3) by simp
  have reps: "repetitions ?r = 3"
    unfolding repetitions_newReview option.case assms(2) by simp
  have iv: "interval ?r = Math_round (6 * 2.36)"
    unfolding interval_newReview ef reps option.case assms(4) Let_def by simp
  have "Math_round (6 * 2.36) = 14"
    by (simp add: Math_round_def)
  then show ?thesis
    using ef reps iv by (simp add: find_recordReview assms(1))
qed

theorem good_review_third_repetition_witness:
  "find (reviewOf ''c'' ''p'') (getReviews secondReviewStorage) = Some secondReview
   \<and> repetitions secondReview = 2 \<and> easeFactor secondReview = 2.5
   \<and> interval secondReview = 6
   \<and> (\<exists>r. find (reviewOf ''c'' ''p'')
          (getReviews (recordReview secondReviewStorage 0 0 ''p'' ''c'' 3)) = Some r
        \<and> easeFactor r = 2.36 \<and> repetitions r = 3 \<and> interval r = 14)"
proof -
  have f: "find (reviewOf ''c'' ''p'') (getReviews secondReviewStorage) = Some secondReview"
    by (simp add: getReviews_def secondReviewStorage_def secondReview_def reviewOf_def)
  have r: "repetitions secondReview = 2" and e: "easeFactor secondReview = 2.5"
    and i: "interval secondReview = 6"
    by (simp_all add: secondReview_def)
  show ?thesis
    using good_review_third_repetition [OF f r e i, of 0 0] f r e i
    by (simp add: find_recordReview newReview_def Math_round_def secondReview_def)
qed

lemma runReviews_threeDayCalls: "runReviews threeDayCalls emptyStorage = threeDayStorage"
  by (simp add: threeDayCalls_def threeDayStorage_def emptyStorage_def recordReview_def
      updateSessionStats_def getReviews_def getSessions_def newReview_def reviewOf_def
      sessionOn_def setHoursZero_def msPerDay_def Math_round_def Let_def)

subsection \<open>A quality outside 1 to 4\<close>




subsection \<open>One review per card and pack\<close>

lemma filter_recordReview_same:
  "filter (reviewOf c p) (getReviews (recordReview ls tz now p c q)) =
     [newReview (find (reviewOf c p) (getReviews ls)) now p c q]"
  by (simp add: getReviews_recordReview reviewOf_newReview)

lemma filter_recordReview_other:
  assumes "(c', p') \<noteq> (c, p)"
  shows "filter (reviewOf c' p') (getReviews (recordReview ls tz now p c q)) =
     filter (reviewOf c' p') (getReviews ls)"
proof -
  have a: "\<not> reviewOf c' p' (newReview e now p c q)" for e
    using assms by (auto simp add: reviewOf_def cardId_newReview studyPackId_newReview)
  have b: "reviewOf c' p' r \<Longrightarrow> \<not> reviewOf c p r" for r
    using assms by (auto simp add: reviewOf_def)
  have "filter (reviewOf c' p') (filter (\<lambda>r. \<not> reviewOf c p r) xs) = filter (reviewOf c' p') xs"
    for xs
    using b by (induction xs) auto
  then show ?thesis
    by (simp add: getReviews_recordReview a)
qed

lemma length_filter_recordReview:
  assumes "length (filter (reviewOf c' p') (getReviews ls)) \<le> 1"
  shows "length (filter (reviewOf c' p') (getReviews (recordReview ls tz now p c q))) \<le> 1"
proof (cases "(c', p') = (c, p)")
  case True
  then show ?thesis by (simp add: filter_recordReview_same)
next
  case False
  then show ?thesis using assms by (simp add: filter_recordReview_other)
qed

lemma length_filter_runReviews:
  "length (filter (reviewOf c' p') (getReviews ls)) \<le> 1 \<Longrightarrow>
   length (filter (reviewOf c' p') (getReviews (runReviews calls ls))) \<le> 1"
proof (induction calls arbitrary: ls)
  case Nil
  then show ?case by simp
next
  case (Cons a calls)
  from Cons.prems have "length (filter (reviewOf c' p') (getReviews
      (recordReview ls (callTz a) (callNow a) (callPack a) (callCard a) (callQuality a)))) \<le> 1"
    by (rule length_filter_recordReview)
  then show ?case using Cons.IH by simp
qed

text \<open>
  Claim C6. After any sequence of \<^verbatim>\<open>recordReview\<close> calls on the empty storage, the
  stored reviews hold at most one record for every card and pack. Right after
  \<^verbatim>\<open>recordReview\<close> for a card and pack, from any storage, exactly one record exists
  for them: the newly computed one, which replaces every earlier one; the records of
  every other card and pack are as before.
\<close>

theorem one_review_per_pair:
  "length (filter (reviewOf c' p') (getReviews (runReviews calls emptyStorage))) \<le> 1
   \<and> filter (reviewOf c p) (getReviews (recordReview ls tz now p c q)) =
       [newReview (find (reviewOf c p) (getReviews ls)) now p c q]
   \<and> ((c', p') \<noteq> (c, p) \<longrightarrow>
        filter (reviewOf c' p') (getReviews (recordReview ls tz now p c q)) =
          filter (reviewOf c' p') (getReviews ls))"
proof -
  have "length (filter (reviewOf c' p') (getReviews emptyStorage)) \<le> 1"
    by (simp add: getReviews_def emptyStorage_def)
  then have "length (filter (reviewOf c' p') (getReviews (runReviews calls emptyStorage))) \<le> 1"
    by (rule length_filter_runReviews)
  then show ?thesis
    using filter_recordReview_same filter_recordReview_other by (intro conjI impI)
qed

theorem one_review_per_pair_witness:
  "length (filter (reviewOf ''a'' ''p'') (getReviews (runReviews threeDayCalls emptyStorage))) \<le> 1
   \<and> filter (reviewOf ''a'' ''p'') (getReviews (runReviews threeDayCalls emptyStorage)) =
       [\<lparr>cardId = ''a'', studyPackId = ''p'', quality = 4, reviewDate = 86401000,
         interval = 26, easeFactor = 2.5, repetitions = 2, nextReview = 2332801000\<rparr>]
   \<and> filter (reviewOf ''c'' ''p'') (getReviews (recordReview secondReviewStorage 0 0 ''p'' ''c'' 1)) =
       [\<lparr>cardId = ''c'', studyPackId = ''p'', quality = 1, reviewDate = 0,
         interval = 1, easeFactor = 1.96, repetitions = 0, nextReview = 86400000\<rparr>]
   \<and> (''a'', ''p'') \<noteq> (''c'', ''p'')
   \<and> filter (reviewOf ''a'' ''p'') (getReviews (recordReview secondReviewStorage 0 0 ''p'' ''c'' 1)) = []"
proof -
  have f: "find (reviewOf ''c'' ''p'') (getReviews secondReviewStorage) = Some secondReview"
    by (simp add: getReviews_def secondReviewStorage_def secondReview_def reviewOf_def)
  have n: "newReview (Some secondReview) 0 ''p'' ''c'' 1 =
      \<lparr>cardId = ''c'', studyPackId = ''p'', quality = 1, reviewDate = 0,
       interval = 1, easeFactor = 1.96, repetitions = 0, nextReview = 86400000\<rparr>"
    by (simp add: newReview_def secondReview_def Math_round_def)
  have g: "filter (reviewOf ''a'' ''p'') (getReviews secondReviewStorage) = []"
    by (simp add: getReviews_def secondReviewStorage_def secondReview_def reviewOf_def)
  have h: "getReviews threeDayStorage = [\<lparr>cardId = ''a'', studyPackId = ''p'', quality = 4, reviewDate = 86401000,
          interval = 26, easeFactor = 2.5, repetitions = 2, nextReview = 2332801000\<rparr>,
         \<lparr>cardId = ''b'', studyPackId = ''p'', quality = 3, reviewDate = 172801000,
          interval = 6, easeFactor = 2.5, repetitions = 1, nextReview = 691201000\<rparr>]"
    by (simp add: threeDayStorage_def getReviews_def)
  show ?thesis
    using one_review_per_pair [of "''a''" "''p''" threeDayCalls "''c''" "''p''" secondReviewStorage 0 0 1]
    by (simp add: f n g h runReviews_threeDayCalls reviewOf_def)
qed

subsection \<open>Intervals of stored reviews\<close>

lemma Math_round_ge_1: "1 / 2 \<le> x \<Longrightarrow> 1 \<le> Math_round x"
  by (simp add: Math_round_def le_floor_iff)

lemma easeFactor_newReview_ge: "1.3 \<le> easeFactor (newReview e now p c q)"
proof (cases e)
  case None
  then show ?thesis by (simp add: easeFactor_newReview)
next
  case (Some old)
  show ?thesis unfolding Some easeFactor_newReview option.case by (rule max.cobounded1)
qed

lemma interval_newReview_ge_1:
  assumes "\<And>old. e = Some old \<Longrightarrow> 0 \<le> interval old"
  shows "1 \<le> interval (newReview e now p c q)"
proof -
  define ef where "ef = easeFactor (newReview e now p c q)"
  define oi where "oi = (case e of Some old \<Rightarrow> if interval old = 0 then 1 else interval old
                          | None \<Rightarrow> (1::int))"
  define reps where "reps = repetitions (newReview e now p c q)"
  define base where "base = (if reps = 0 then 1 else if reps = 1 then 6
                             else Math_round (of_int oi * ef))"
  have ef: "1.3 \<le> ef" unfolding ef_def by (rule easeFactor_newReview_ge)
  have oi: "1 \<le> oi" using assms by (auto simp add: oi_def split: option.splits)
  have "1 * 1.3 \<le> of_int oi * ef"
    using ef oi by (intro mult_mono) simp_all
  then have "1 \<le> Math_round (of_int oi * ef)"
    by (intro Math_round_ge_1) simp
  then have base: "1 \<le> base" by (simp add: base_def)
  then have "(1::real) \<le> of_int base" by simp
  then have "1 \<le> Math_round (of_int base * 1.3)"
    by (intro Math_round_ge_1) simp
  moreover have "interval (newReview e now p c q) =
      (if q = 1 then max 1 (Math_round (of_int base * 0.2))
       else if q = 2 then max 1 (Math_round (of_int base * 0.6))
       else if q = 3 then base
       else if q = 4 then Math_round (of_int base * 1.3)
       else base)"
    by (simp only: interval_newReview Let_def base_def reps_def oi_def ef_def)
  ultimately show ?thesis using base by simp
qed

lemma readBack_newDate_idem: "readBack (newDate (readBack (newDate t))) = readBack (newDate t)"
  by (simp add: readBack_def newDate_def maxTime_def)

lemma readBack_newDate_valid:
  "- maxTime \<le> t \<Longrightarrow> t \<le> maxTime \<Longrightarrow> readBack (newDate t) = t"
  by (simp add: readBack_def newDate_def)

lemma readBack_newDate_late: "maxTime < t \<Longrightarrow> readBack (newDate t) = 0"
  by (simp add: readBack_def newDate_def)

lemma maxTime_less_maxNumber: "2 * maxTime < maxNumber"
  by (simp add: maxTime_def maxNumber_def)

lemma storeReview_storedOk: "storedOk r \<Longrightarrow> storeReview r = r"
proof -
  assume ok: "storedOk r"
  then have d: "readBack (newDate (reviewDate r)) = reviewDate r"
    by (simp add: storedOk_def readBack_newDate_valid)
  from ok consider (null) "nextReview r = 0"
    | (number) "nextReview r = readBack (newDate (reviewDate r + interval r * msPerDay))"
    by (auto simp add: storedOk_def)
  then have n: "readBack (newDate (nextReview r)) = nextReview r"
  proof cases
    case null
    then show ?thesis by (simp add: readBack_def newDate_def maxTime_def)
  next
    case number
    then show ?thesis by (metis readBack_newDate_idem)
  qed
  have i: "(if interval r \<le> maxNumber then interval r else 0) = interval r"
    using ok maxTime_less_maxNumber by (auto simp add: storedOk_def maxTime_def)
  show "storeReview r = r"
    by (simp add: storeReview_def d n i)
qed

lemma sr_reviews_recordReview:
  "sr_reviews (recordReview ls tz now p c q) = Items (getReviews (recordReview ls tz now p c q))"
  by (simp add: recordReview_def updateSessionStats_def getReviews_def Let_def
      split: option.splits)

lemma getReviews_recordReviewStored:
  "getReviews (recordReviewStored ls tz now p c q) =
     map storeReview (getReviews (recordReview ls tz now p c q))"
  by (simp add: recordReviewStored_def Let_def getReviews_def)

lemma recordReviewStored_in_range:
  assumes "list_all storedOk (getReviews (recordReview ls tz now p c q))"
  shows "recordReviewStored ls tz now p c q = recordReview ls tz now p c q"
proof -
  have "map storeReview (getReviews (recordReview ls tz now p c q)) =
      getReviews (recordReview ls tz now p c q)"
    using assms by (simp add: list_all_iff map_idI storeReview_storedOk)
  then show ?thesis
    using sr_reviews_recordReview [of ls tz now p c q]
    by (simp add: recordReviewStored_def Let_def)
qed

lemma storedOk_storeReview_newReview:
  assumes "\<And>old. e = Some old \<Longrightarrow> 0 \<le> interval old"
    and "- maxTime \<le> now" and "now \<le> maxTime"
  shows "storedOk (storeReview (newReview e now p c q))"
proof -
  let ?r = "newReview e now p c q"
  have i: "1 \<le> interval ?r"
    using assms(1) by (rule interval_newReview_ge_1)
  have d: "reviewDate (storeReview ?r) = now"
    using assms(2,3) by (simp add: storeReview_def reviewDate_newReview readBack_newDate_valid)
  have n: "nextReview (storeReview ?r) = readBack (newDate (now + interval ?r * msPerDay))"
    by (simp add: storeReview_def nextReview_newReview reviewDate_newReview)
  show ?thesis
  proof (cases "interval ?r \<le> maxNumber")
    case True
    then have "interval (storeReview ?r) = interval ?r"
      by (simp add: storeReview_def)
    then show ?thesis
      using i d n True assms(2,3) by (simp add: storedOk_def)
  next
    case False
    then have z: "interval (storeReview ?r) = 0"
      by (simp add: storeReview_def)
    have "interval ?r * 1 \<le> interval ?r * msPerDay"
      using i by (intro mult_left_mono) (simp_all add: msPerDay_def)
    then have "maxTime < now + interval ?r * msPerDay"
      using False assms(2) maxTime_less_maxNumber by simp
    then have "nextReview (storeReview ?r) = 0"
      using n by (simp add: readBack_newDate_late)
    then show ?thesis
      using z d assms(2,3) by (simp add: storedOk_def)
  qed
qed

lemma storedOk_recordReviewStored:
  assumes "\<forall>r\<in>set (getReviews ls). storedOk r"
    and "- maxTime \<le> now" and "now \<le> maxTime"
  shows "\<forall>r\<in>set (getReviews (recordReviewStored ls tz now p c q)). storedOk r"
proof -
  have "0 \<le> interval old" if "find (reviewOf c p) (getReviews ls) = Some old" for old
  proof -
    have "storedOk old"
      using that assms(1) by (auto simp add: find_Some_iff)
    then show ?thesis
      by (auto simp add: storedOk_def)
  qed
  then have "storedOk (storeReview (newReview (find (reviewOf c p) (getReviews ls)) now p c q))"
    using assms(2,3) by (intro storedOk_storeReview_newReview)
  moreover have "storedOk (storeReview r)" if "r \<in> set (getReviews ls)" for r
    using that assms(1) by (simp add: storeReview_storedOk)
  ultimately show ?thesis
    by (auto simp add: getReviews_recordReviewStored getReviews_recordReview)
qed

lemma storedOk_runReviewsStored:
  assumes "\<forall>c\<in>set calls. - maxTime \<le> callNow c \<and> callNow c \<le> maxTime"
    and "\<forall>r\<in>set (getReviews ls). storedOk r"
  shows "\<forall>r\<in>set (getReviews (runReviewsStored calls ls)). storedOk r"
  using assms
proof (induction calls arbitrary: ls)
  case Nil
  then show ?case by simp
next
  case (Cons a calls)
  have "\<forall>r\<in>set (getReviews
      (recordReviewStored ls (callTz a) (callNow a) (callPack a) (callCard a) (callQuality a))).
        storedOk r"
    using Cons.prems by (intro storedOk_recordReviewStored) simp_all
  moreover have "\<forall>c\<in>set calls. - maxTime \<le> callNow c \<and> callNow c \<le> maxTime"
    using Cons.prems(1) by simp
  ultimately show ?case using Cons.IH by simp
qed

lemma runReviewsStored_threeDayCalls:
  "runReviewsStored threeDayCalls emptyStorage = threeDayStorage"
  by (simp add: threeDayCalls_def threeDayStorage_def emptyStorage_def recordReviewStored_def
      recordReview_def updateSessionStats_def getReviews_def getSessions_def newReview_def
      reviewOf_def sessionOn_def setHoursZero_def msPerDay_def Math_round_def Let_def
      storeReview_def newDate_def readBack_def maxTime_def maxNumber_def)

text \<open>
  Fifteen reviews of one card with quality 4: the interval is 118496157 days, the date
  that many days after the review is beyond the range of \<^verbatim>\<open>Date\<close>, and the stored next
  review is the epoch, which is before the review date.
\<close>

theorem late_next_review_counterexample:
  "list_all (\<lambda>c. 1 \<le> callQuality c \<and> callQuality c \<le> 4) fifteenEasyCalls
   \<and> getReviews (runReviewsStored fifteenEasyCalls emptyStorage) =
       [\<lparr>cardId = ''a'', studyPackId = ''p'', quality = 4, reviewDate = 1000,
         interval = 118496157, easeFactor = 2.5, repetitions = 15, nextReview = 0\<rparr>]
   \<and> 1000 + 118496157 * 86400000 > maxTime
   \<and> \<not> (1000 + 24 * 60 * 60 * 1000 \<le> (0::int))"
  by (simp add: fifteenEasyCalls_def easyCall_def emptyStorage_def recordReviewStored_def
      recordReview_def updateSessionStats_def getReviews_def getSessions_def newReview_def
      reviewOf_def sessionOn_def setHoursZero_def msPerDay_def Math_round_def Let_def
      storeReview_def newDate_def readBack_def maxTime_def maxNumber_def addToSession_def)

text \<open>
  Claim C10, amended. After any sequence of \<^verbatim>\<open>recordReview\<close> calls with qualities
  from 1 to 4 on the empty storage, made at valid dates, every stored review has an
  interval of at least one day, unless the interval grew beyond the largest number:
  then the interval and the next review are both stored as \<^verbatim>\<open>null\<close>. For an interval
  of at least one day, as long as the date that many days after the review is within
  the range of \<^verbatim>\<open>Date\<close>, it is the stored next review, which is then at least 24 hours
  after the review date; beyond the range the stored next review is \<^verbatim>\<open>null\<close>, read
  back as the epoch.
\<close>

theorem stored_intervals_and_dates:
  assumes "\<forall>c\<in>set calls. 1 \<le> callQuality c \<and> callQuality c \<le> 4
             \<and> - maxTime \<le> callNow c \<and> callNow c \<le> maxTime"
  shows "\<forall>r\<in>set (getReviews (runReviewsStored calls emptyStorage)).
           interval r = 0 \<and> nextReview r = 0
         \<or> 1 \<le> interval r \<and> interval r \<le> maxNumber
           \<and> (if reviewDate r + interval r * (24 * 60 * 60 * 1000) \<le> maxTime
              then nextReview r = reviewDate r + interval r * (24 * 60 * 60 * 1000)
                 \<and> reviewDate r + 24 * 60 * 60 * 1000 \<le> nextReview r
              else nextReview r = 0)"
proof
  fix r assume r: "r \<in> set (getReviews (runReviewsStored calls emptyStorage))"
  have "\<forall>c\<in>set calls. - maxTime \<le> callNow c \<and> callNow c \<le> maxTime"
    using assms by simp
  moreover have "\<forall>r\<in>set (getReviews emptyStorage). storedOk r"
    by (simp add: getReviews_def emptyStorage_def)
  ultimately have "\<forall>r\<in>set (getReviews (runReviewsStored calls emptyStorage)). storedOk r"
    by (rule storedOk_runReviewsStored)
  then have ok: "storedOk r" using r by (rule bspec)
  then have lo: "- maxTime \<le> reviewDate r"
    by (simp add: storedOk_def)
  show "interval r = 0 \<and> nextReview r = 0
         \<or> 1 \<le> interval r \<and> interval r \<le> maxNumber
           \<and> (if reviewDate r + interval r * (24 * 60 * 60 * 1000) \<le> maxTime
              then nextReview r = reviewDate r + interval r * (24 * 60 * 60 * 1000)
                 \<and> reviewDate r + 24 * 60 * 60 * 1000 \<le> nextReview r
              else nextReview r = 0)"
  proof (cases "interval r = 0 \<and> nextReview r = 0")
    case True
    then show ?thesis by simp
  next
    case False
    then have i: "1 \<le> interval r" and u: "interval r \<le> maxNumber"
      and n: "nextReview r = readBack (newDate (reviewDate r + interval r * msPerDay))"
      using ok by (auto simp add: storedOk_def)
    have m: "1 * msPerDay \<le> interval r * msPerDay"
      using i by (intro mult_right_mono) (simp_all add: msPerDay_def)
    show ?thesis
    proof (cases "reviewDate r + interval r * msPerDay \<le> maxTime")
      case True
      moreover have "- maxTime \<le> reviewDate r + interval r * msPerDay"
        using lo m by (simp add: msPerDay_def)
      ultimately have "nextReview r = reviewDate r + interval r * msPerDay"
        using n by (simp add: readBack_newDate_valid)
      then show ?thesis using True i u m by (simp add: msPerDay_def)
    next
      case late: False
      then have "nextReview r = 0"
        using n by (simp add: readBack_newDate_late)
      then show ?thesis using late i u by (simp add: msPerDay_def)
    qed
  qed
qed

theorem stored_intervals_and_dates_witness:
  "list_all (\<lambda>c. 1 \<le> callQuality c \<and> callQuality c \<le> 4
               \<and> - maxTime \<le> callNow c \<and> callNow c \<le> maxTime) threeDayCalls
   \<and> map interval (getReviews (runReviewsStored threeDayCalls emptyStorage)) = [26, 6]
   \<and> map reviewDate (getReviews (runReviewsStored threeDayCalls emptyStorage))
       = [86401000, 172801000]
   \<and> map nextReview (getReviews (runReviewsStored threeDayCalls emptyStorage))
       = [86401000 + 26 * (24 * 60 * 60 * 1000), 172801000 + 6 * (24 * 60 * 60 * 1000)]
   \<and> list_all (\<lambda>r. 1 \<le> interval r \<and> reviewDate r + 24 * 60 * 60 * 1000 \<le> nextReview r)
        (getReviews (runReviewsStored threeDayCalls emptyStorage))"
proof -
  have q: "\<forall>c\<in>set threeDayCalls. 1 \<le> callQuality c \<and> callQuality c \<le> 4
             \<and> - maxTime \<le> callNow c \<and> callNow c \<le> maxTime"
    by (simp add: threeDayCalls_def maxTime_def)
  have g: "getReviews (runReviewsStored threeDayCalls emptyStorage) =
      [\<lparr>cardId = ''a'', studyPackId = ''p'', quality = 4, reviewDate = 86401000,
          interval = 26, easeFactor = 2.5, repetitions = 2, nextReview = 2332801000\<rparr>,
         \<lparr>cardId = ''b'', studyPackId = ''p'', quality = 3, reviewDate = 172801000,
          interval = 6, easeFactor = 2.5, repetitions = 1, nextReview = 691201000\<rparr>]"
    by (simp add: runReviewsStored_threeDayCalls threeDayStorage_def getReviews_def)
  show ?thesis
    using stored_intervals_and_dates [OF q] q by (simp add: g list_all_iff)
qed

subsection \<open>Daily session statistics\<close>

lemma getSessions_recordReview:
  "getSessions (recordReview ls tz now p c q) =
     (case find (sessionOn p (setHoursZero tz now)) (getSessions ls) of
        Some s \<Rightarrow> updateFirst (sessionOn p (setHoursZero tz now)) (addToSession q) (getSessions ls)
      | None \<Rightarrow> getSessions ls @
          [\<lparr>sessionPackId = p, date = setHoursZero tz now, cardsReviewed = 1,
            averageQuality = of_int q\<rparr>])"
  by (simp add: recordReview_def updateSessionStats_def Let_def getSessions_def split: option.splits)

lemma find_updateFirst:
  assumes "\<And>x. P x \<Longrightarrow> P (f x)"
  shows "find P (updateFirst P f xs) = map_option f (find P xs)"
  using assms by (induction xs) auto

lemma filter_not_updateFirst:
  assumes "\<And>x. P x \<Longrightarrow> P (f x)"
  shows "filter (\<lambda>x. \<not> P x) (updateFirst P f xs) = filter (\<lambda>x. \<not> P x) xs"
  using assms by (induction xs) auto

lemma map_updateFirst:
  assumes "\<And>x. k (f x) = k x"
  shows "map k (updateFirst P f xs) = map k xs"
  using assms by (induction xs) auto

lemma list_all_updateFirst:
  assumes "list_all Q xs" and "\<And>x. Q x \<Longrightarrow> Q (f x)"
  shows "list_all Q (updateFirst P f xs)"
  using assms by (induction xs) auto

lemma find_append_None:
  "find P xs = None \<Longrightarrow> find P (xs @ ys) = find P ys"
  by (induction xs) (auto split: if_splits)

lemma sessionOn_addToSession: "sessionOn p d s \<Longrightarrow> sessionOn p d (addToSession q s)"
  by (simp add: sessionOn_def addToSession_def Let_def)

lemma sessionKey_addToSession: "sessionKey (addToSession q s) = sessionKey s"
  by (simp add: sessionKey_def addToSession_def Let_def)

lemma find_sessionOn_None:
  "find (sessionOn p d) ss = None \<Longrightarrow> (p, d) \<notin> set (map sessionKey ss)"
  by (auto simp add: find_None_iff sessionOn_def sessionKey_def)

lemma sessionsOk_recordReview:
  assumes "sessionsOk (getSessions ls)"
  shows "sessionsOk (getSessions (recordReview ls tz now p c q))"
proof (cases "find (sessionOn p (setHoursZero tz now)) (getSessions ls)")
  case None
  then show ?thesis
    using assms find_sessionOn_None [OF None]
    by (simp add: getSessions_recordReview sessionsOk_def sessionKey_def)
next
  case (Some s)
  have "list_all (\<lambda>s. 1 \<le> cardsReviewed s)
          (updateFirst (sessionOn p (setHoursZero tz now)) (addToSession q) (getSessions ls))"
    using assms
    by (intro list_all_updateFirst) (simp_all add: sessionsOk_def addToSession_def Let_def)
  then show ?thesis
    using assms Some
    by (simp add: getSessions_recordReview sessionsOk_def map_updateFirst sessionKey_addToSession)
qed

lemma sessionsOk_runReviews:
  "sessionsOk (getSessions ls) \<Longrightarrow> sessionsOk (getSessions (runReviews calls ls))"
proof (induction calls arbitrary: ls)
  case Nil
  then show ?case by simp
next
  case (Cons a calls)
  from Cons.prems have "sessionsOk (getSessions
      (recordReview ls (callTz a) (callNow a) (callPack a) (callCard a) (callQuality a)))"
    by (rule sessionsOk_recordReview)
  then show ?case using Cons.IH by simp
qed

lemma setHoursZero_midnight:
  "(setHoursZero tz now + tz) mod msPerDay = 0 \<and> setHoursZero tz now \<le> now
   \<and> now < setHoursZero tz now + msPerDay"
proof -
  have "(now + tz - (now + tz) mod msPerDay) mod msPerDay = 0"
    by (simp add: minus_mod_eq_mult_div)
  moreover have "now + tz - (now + tz) mod msPerDay = now - (now + tz) mod msPerDay + tz"
    by simp
  moreover have "0 \<le> (now + tz) mod msPerDay" "(now + tz) mod msPerDay < msPerDay"
    by (simp_all add: msPerDay_def)
  ultimately show ?thesis
    by (simp add: setHoursZero_def)
qed

text \<open>
  Claim C8. After any sequence of \<^verbatim>\<open>recordReview\<close> calls on the empty storage there
  is at most one session record for every pack and day, and every record counts at
  least one card. Each \<^verbatim>\<open>recordReview\<close>, from any storage, upserts the record of the
  pack for today: an existing record gets \<open>cardsReviewed + 1\<close> and the mean
  \<open>(oldMean * oldCount + quality) / (oldCount + 1)\<close>; otherwise a record with one card
  and the quality as mean is created. The records of other packs and days are
  unchanged, and today is the midnight of the local day of \<open>now\<close>.
\<close>

theorem daily_session_upsert:
  "distinct (map (\<lambda>s. (sessionPackId s, date s)) (getSessions (runReviews calls emptyStorage)))
   \<and> list_all (\<lambda>s. 1 \<le> cardsReviewed s) (getSessions (runReviews calls emptyStorage))
   \<and> (case find (sessionOn p (setHoursZero tz now)) (getSessions ls) of
         Some s \<Rightarrow>
           find (sessionOn p (setHoursZero tz now)) (getSessions (recordReview ls tz now p c q)) =
             Some (s\<lparr>cardsReviewed := cardsReviewed s + 1,
                     averageQuality := (averageQuality s * of_int (cardsReviewed s) + of_int q)
                                         / of_int (cardsReviewed s + 1)\<rparr>)
       | None \<Rightarrow>
           find (sessionOn p (setHoursZero tz now)) (getSessions (recordReview ls tz now p c q)) =
             Some \<lparr>sessionPackId = p, date = setHoursZero tz now, cardsReviewed = 1,
                   averageQuality = of_int q\<rparr>)
   \<and> filter (\<lambda>s. \<not> sessionOn p (setHoursZero tz now) s) (getSessions (recordReview ls tz now p c q)) =
       filter (\<lambda>s. \<not> sessionOn p (setHoursZero tz now) s) (getSessions ls)
   \<and> (setHoursZero tz now + tz) mod msPerDay = 0
   \<and> setHoursZero tz now \<le> now \<and> now < setHoursZero tz now + msPerDay"
proof -
  have "sessionsOk (getSessions emptyStorage)"
    by (simp add: sessionsOk_def getSessions_def emptyStorage_def)
  then have "sessionsOk (getSessions (runReviews calls emptyStorage))"
    by (rule sessionsOk_runReviews)
  then have a: "distinct (map (\<lambda>s. (sessionPackId s, date s)) (getSessions (runReviews calls emptyStorage)))"
    and b: "list_all (\<lambda>s. 1 \<le> cardsReviewed s) (getSessions (runReviews calls emptyStorage))"
    by (simp_all add: sessionsOk_def sessionKey_def [abs_def])
  have c: "(case find (sessionOn p (setHoursZero tz now)) (getSessions ls) of
         Some s \<Rightarrow>
           find (sessionOn p (setHoursZero tz now)) (getSessions (recordReview ls tz now p c q)) =
             Some (s\<lparr>cardsReviewed := cardsReviewed s + 1,
                     averageQuality := (averageQuality s * of_int (cardsReviewed s) + of_int q)
                                         / of_int (cardsReviewed s + 1)\<rparr>)
       | None \<Rightarrow>
           find (sessionOn p (setHoursZero tz now)) (getSessions (recordReview ls tz now p c q)) =
             Some \<lparr>sessionPackId = p, date = setHoursZero tz now, cardsReviewed = 1,
                   averageQuality = of_int q\<rparr>)"
  proof (cases "find (sessionOn p (setHoursZero tz now)) (getSessions ls)")
    case None
    then show ?thesis
      by (simp add: getSessions_recordReview find_append_None sessionOn_def)
  next
    case (Some s)
    have "find (sessionOn p (setHoursZero tz now))
            (updateFirst (sessionOn p (setHoursZero tz now)) (addToSession q) (getSessions ls)) =
          map_option (addToSession q) (find (sessionOn p (setHoursZero tz now)) (getSessions ls))"
      by (rule find_updateFirst) (rule sessionOn_addToSession)
    then show ?thesis
      using Some by (simp add: getSessions_recordReview addToSession_def Let_def)
  qed
  have d: "filter (\<lambda>s. \<not> sessionOn p (setHoursZero tz now) s) (getSessions (recordReview ls tz now p c q)) =
       filter (\<lambda>s. \<not> sessionOn p (setHoursZero tz now) s) (getSessions ls)"
  proof (cases "find (sessionOn p (setHoursZero tz now)) (getSessions ls)")
    case None
    then show ?thesis
      by (simp add: getSessions_recordReview sessionOn_def)
  next
    case (Some s)
    have "filter (\<lambda>s. \<not> sessionOn p (setHoursZero tz now) s)
            (updateFirst (sessionOn p (setHoursZero tz now)) (addToSession q) (getSessions ls)) =
          filter (\<lambda>s. \<not> sessionOn p (setHoursZero tz now) s) (getSessions ls)"
      by (rule filter_not_updateFirst) (rule sessionOn_addToSession)
    then show ?thesis
      using Some by (simp add: getSessions_recordReview)
  qed
  show ?thesis
    by (rule conjI [OF a conjI [OF b conjI [OF c conjI [OF d setHoursZero_midnight]]]])
qed

theorem daily_session_upsert_witness:
  "distinct (map (\<lambda>s. (sessionPackId s, date s)) (getSessions (runReviews threeDayCalls emptyStorage)))
   \<and> find (sessionOn ''p'' 0) (getSessions oneSessionStorage) =
       Some \<lparr>sessionPackId = ''p'', date = 0, cardsReviewed = 2, averageQuality = 3.5\<rparr>
   \<and> find (sessionOn ''p'' 0) (getSessions (recordReview oneSessionStorage 0 1000 ''p'' ''c'' 2)) =
       Some \<lparr>sessionPackId = ''p'', date = 0, cardsReviewed = 3, averageQuality = 3\<rparr>
   \<and> find (sessionOn ''p'' 86400000) (getSessions oneSessionStorage) = None
   \<and> find (sessionOn ''p'' 86400000)
        (getSessions (recordReview oneSessionStorage 0 86401000 ''p'' ''c'' 2)) =
       Some \<lparr>sessionPackId = ''p'', date = 86400000, cardsReviewed = 1, averageQuality = 2\<rparr>"
proof -
  have t: "setHoursZero 0 1000 = 0" "setHoursZero 0 86401000 = 86400000"
    by (simp_all add: setHoursZero_def msPerDay_def)
  have f: "find (sessionOn ''p'' 0) (getSessions oneSessionStorage) =
       Some \<lparr>sessionPackId = ''p'', date = 0, cardsReviewed = 2, averageQuality = 3.5\<rparr>"
    and g: "find (sessionOn ''p'' 86400000) (getSessions oneSessionStorage) = None"
    by (simp_all add: oneSessionStorage_def getSessions_def sessionOn_def)
  show ?thesis
    using daily_session_upsert [of threeDayCalls "''p''" 0 1000 oneSessionStorage "''c''" 2]
      daily_session_upsert [of threeDayCalls "''p''" 0 86401000 oneSessionStorage "''c''" 2]
    by (simp add: t f g)
qed

subsection \<open>The streak\<close>

text \<open>
  Claim C4 on the code. With session records on exactly today and the two days before
  (and none earlier), \<^verbatim>\<open>calculateStreak\<close> returns 2, where the claim expects 3: the
  loop resets \<^verbatim>\<open>currentDate\<close> to each counted session and still compares the
  difference of days with the running count, so the third consecutive day (difference
  1, count 2) ends the loop. With records on today and on the day before yesterday
  only, it returns 1, as the claim says.
\<close>

theorem streak_of_consecutive_days:
  "calculateStreak
     \<lparr>sr_reviews = rs, sr_sessions = Items
        [\<lparr>sessionPackId = p, date = setHoursZero tz now - 2 * msPerDay, cardsReviewed = n2, averageQuality = a2\<rparr>,
         \<lparr>sessionPackId = p, date = setHoursZero tz now - msPerDay, cardsReviewed = n1, averageQuality = a1\<rparr>,
         \<lparr>sessionPackId = p, date = setHoursZero tz now, cardsReviewed = n0, averageQuality = a0\<rparr>]\<rparr>
     tz now p = 2
   \<and> calculateStreak
     \<lparr>sr_reviews = rs, sr_sessions = Items
        [\<lparr>sessionPackId = p, date = setHoursZero tz now - 2 * msPerDay, cardsReviewed = n2, averageQuality = a2\<rparr>,
         \<lparr>sessionPackId = p, date = setHoursZero tz now, cardsReviewed = n0, averageQuality = a0\<rparr>]\<rparr>
     tz now p = 1"
  by (simp add: calculateStreak_def getSessions_def sortBy_def msPerDay_def Let_def)

text \<open>
  The same on a storage written by \<^verbatim>\<open>recordReview\<close> itself, one review on each of
  three consecutive days.
\<close>

theorem streak_of_consecutive_days_witness:
  "getSessions (runReviews threeDayCalls emptyStorage) =
     [\<lparr>sessionPackId = ''p'', date = 0, cardsReviewed = 1, averageQuality = 4\<rparr>,
      \<lparr>sessionPackId = ''p'', date = 86400000, cardsReviewed = 1, averageQuality = 4\<rparr>,
      \<lparr>sessionPackId = ''p'', date = 172800000, cardsReviewed = 1, averageQuality = 3\<rparr>]
   \<and> setHoursZero 0 172802000 = 172800000
   \<and> calculateStreak (runReviews threeDayCalls emptyStorage) 0 172802000 ''p'' = 2"
proof -
  have t: "setHoursZero 0 172802000 = 172800000"
    by (simp add: setHoursZero_def msPerDay_def)
  show ?thesis
    using streak_of_consecutive_days [of "sr_reviews threeDayStorage" "''p''" 0 172802000 1 4 1 4 1 3]
    by (simp add: t runReviews_threeDayCalls threeDayStorage_def getSessions_def msPerDay_def)
qed

subsection \<open>Due and upcoming cards\<close>

lemma set_insertBy: "set (insertBy cmp x xs) = insert x (set xs)"
  by (induction xs) auto

lemma set_sortBy: "set (sortBy cmp xs) = set xs"
  by (induction xs) (simp_all add: sortBy_def set_insertBy)




lemma sortBy_sorted:
  "sorted_wrt (\<lambda>a b. cmp a b \<le> 0) xs \<Longrightarrow> sortBy cmp xs = xs"
proof (induction xs)
  case Nil
  then show ?case by (simp add: sortBy_def)
next
  case (Cons x xs)
  then have "sortBy cmp (x # xs) = insertBy cmp x xs"
    by (simp add: sortBy_def)
  then show ?case using Cons.prems by (cases xs) simp_all
qed







lemma set_slice0: "set (slice0 limit xs) \<subseteq> set xs"
  by (auto simp add: slice0_def dest: in_set_takeD)


















subsection \<open>Unreadable storage\<close>

lemma getReviews_coldStart: "getReviews (coldStart ls) = getReviews ls"
  by (simp add: getReviews_def coldStart_def split: stored.splits)

lemma getSessions_coldStart: "getSessions (coldStart ls) = getSessions ls"
  by (simp add: getSessions_def coldStart_def split: stored.splits)

lemma recordReview_coldStart:
  "recordReview (coldStart ls) tz now p c q = recordReview ls tz now p c q"
proof -
  have "updateSessionStats (coldStart ls\<lparr>sr_reviews := x\<rparr>) tz now p q
      = updateSessionStats (ls\<lparr>sr_reviews := x\<rparr>) tz now p q" for x
    by (simp add: updateSessionStats_def getSessions_def coldStart_def Let_def
        split: stored.splits option.splits)
  then show ?thesis
    by (simp add: recordReview_def Let_def getReviews_coldStart)
qed

lemma calculateStreak_coldStart:
  "calculateStreak (coldStart ls) tz now p = calculateStreak ls tz now p"
  by (simp add: calculateStreak_def getSessions_coldStart)

lemma getTodayStats_coldStart:
  "getTodayStats (coldStart ls) tz now p = getTodayStats ls tz now p"
  by (simp add: getTodayStats_def getReviews_coldStart calculateStreak_coldStart)

lemma deleteData_coldStart: "deleteData (coldStart ls) p = deleteData ls p"
  unfolding deleteData_def getReviews_coldStart getSessions_coldStart
  by (simp add: coldStart_def)

lemma collectDue_no_reviews:
  "collectDue [] now p cs = map (\<lambda>c. toDueCard now c None) cs"
  by (induction cs) simp_all

lemma collectUpcoming_no_reviews: "collectUpcoming [] now p cs = []"
  by (induction cs) simp_all

lemma getDueCards_no_reviews:
  assumes "getReviews ls = []"
  shows "getDueCards ls now p cs = map (\<lambda>c. toDueCard now c None) cs"
proof -
  have "sorted_wrt (\<lambda>a b. dueCompare a b \<le> 0) (map (\<lambda>c. toDueCard now c None) cs)"
    by (simp add: sorted_wrt_map dueCompare_def toDueCard_def)
  then show ?thesis
    by (simp add: getDueCards_def assms collectDue_no_reviews sortBy_sorted)
qed

lemma unreadable_reviews:
  "sr_reviews ls = Unreadable \<longrightarrow>
     getDueCards ls now p cs = map (\<lambda>c. toDueCard now c None) cs
   \<and> getUpcomingCards ls now p cs limit = []
   \<and> reviewed (getTodayStats ls tz now p) = 0
   \<and> learned (getTodayStats ls tz now p) = 0
   \<and> accuracy (getTodayStats ls tz now p) = 0
   \<and> getReviews (recordReview ls tz now p c q) = [newReview None now p c q]"
proof
  assume "sr_reviews ls = Unreadable"
  then have e: "getReviews ls = []"
    by (simp add: getReviews_def)
  have "getUpcomingCards ls now p cs limit = []"
    by (simp add: getUpcomingCards_def e collectUpcoming_no_reviews sortBy_def slice0_def)
  moreover have "reviewed (getTodayStats ls tz now p) = 0
      \<and> learned (getTodayStats ls tz now p) = 0 \<and> accuracy (getTodayStats ls tz now p) = 0"
    by (simp add: getTodayStats_def e)
  moreover have "getReviews (recordReview ls tz now p c q) = [newReview None now p c q]"
    by (simp add: getReviews_recordReview e)
  ultimately show "getDueCards ls now p cs = map (\<lambda>c. toDueCard now c None) cs
   \<and> getUpcomingCards ls now p cs limit = []
   \<and> reviewed (getTodayStats ls tz now p) = 0
   \<and> learned (getTodayStats ls tz now p) = 0
   \<and> accuracy (getTodayStats ls tz now p) = 0
   \<and> getReviews (recordReview ls tz now p c q) = [newReview None now p c q]"
    using getDueCards_no_reviews [OF e] by blast
qed

lemma unreadable_sessions:
  "sr_sessions ls = Unreadable \<longrightarrow>
     calculateStreak ls tz now p = 0
   \<and> streak (getTodayStats ls tz now p) = 0
   \<and> getSessions (recordReview ls tz now p c q) =
       [\<lparr>sessionPackId = p, date = setHoursZero tz now, cardsReviewed = 1,
         averageQuality = of_int q\<rparr>]"
proof
  assume "sr_sessions ls = Unreadable"
  then have e: "getSessions ls = []"
    by (simp add: getSessions_def)
  have s: "calculateStreak ls tz now p = 0"
    by (simp add: calculateStreak_def e sortBy_def)
  then have "streak (getTodayStats ls tz now p) = 0"
    by (simp add: getTodayStats_def Let_def)
  moreover have "getSessions (recordReview ls tz now p c q) =
       [\<lparr>sessionPackId = p, date = setHoursZero tz now, cardsReviewed = 1,
         averageQuality = of_int q\<rparr>]"
    by (simp add: getSessions_recordReview e)
  ultimately show "calculateStreak ls tz now p = 0
   \<and> streak (getTodayStats ls tz now p) = 0
   \<and> getSessions (recordReview ls tz now p c q) =
       [\<lparr>sessionPackId = p, date = setHoursZero tz now, cardsReviewed = 1,
         averageQuality = of_int q\<rparr>]"
    using s by blast
qed

lemma asParsed_fields:
  "parsedReviewDate (asParsed r) = Some (reviewDate r)"
  "parsedNextReview (asParsed r) = Some (nextReview r)"
  "parsedInterval (asParsed r) = Some (interval r)"
  "parsedRepetitions (asParsed r) = Some (repetitions r)"
  by (simp_all add: asParsed_def)

lemma find_asParsed:
  "find (parsedReviewOf i p) (map asParsed rs) = map_option asParsed (find (reviewOf i p) rs)"
  by (induction rs) (simp_all add: parsedReviewOf_def reviewOf_def asParsed_def)

lemma collectDueParsed_asParsed:
  "collectDueParsed (map asParsed rs) now p cs = map asParsedDue (collectDue rs now p cs)"
proof (induction cs)
  case Nil
  then show ?case by simp
next
  case (Cons c cs)
  show ?case
  proof (cases "find (reviewOf (flashcardId c) p) rs")
    case None
    then show ?thesis
      using Cons by (simp add: find_asParsed asParsedDue_def toDueCard_def)
  next
    case (Some r)
    then show ?thesis
      using Cons by (simp add: find_asParsed asParsedDue_def toDueCard_def asParsed_fields orZero_def)
  qed
qed

lemma collectUpcomingParsed_asParsed:
  "collectUpcomingParsed (map asParsed rs) now p cs =
     map asParsedUpcoming (collectUpcoming rs now p cs)"
proof (induction cs)
  case Nil
  then show ?case by simp
next
  case (Cons c cs)
  show ?case
  proof (cases "find (reviewOf (flashcardId c) p) rs")
    case None
    then show ?thesis
      using Cons by (simp add: find_asParsed)
  next
    case (Some r)
    then show ?thesis
      using Cons by (simp add: find_asParsed asParsedUpcoming_def asParsed_fields)
  qed
qed

lemma insertBy_map:
  assumes "\<And>a b. cmp' (f a) (f b) = cmp a b"
  shows "insertBy cmp' (f x) (map f xs) = map f (insertBy cmp x xs)"
  by (induction xs) (simp_all add: assms)

lemma sortBy_map:
  assumes "\<And>a b. cmp' (f a) (f b) = cmp a b"
  shows "sortBy cmp' (map f xs) = map f (sortBy cmp xs)"
proof (induction xs)
  case Nil
  then show ?case by (simp add: sortBy_def)
next
  case (Cons x xs)
  have "sortBy cmp' (map f (x # xs)) = insertBy cmp' (f x) (sortBy cmp' (map f xs))"
    by (simp add: sortBy_def)
  also have "\<dots> = insertBy cmp' (f x) (map f (sortBy cmp xs))"
    by (simp add: Cons)
  also have "\<dots> = map f (insertBy cmp x (sortBy cmp xs))"
    using assms by (rule insertBy_map)
  also have "\<dots> = map f (sortBy cmp (x # xs))"
    by (simp add: sortBy_def)
  finally show ?case .
qed

lemma getDueCardsParsed_asParsed:
  "getDueCardsParsed (map asParsed (getReviews ls)) now p cs =
     map asParsedDue (getDueCards ls now p cs)"
proof -
  have "dueCompareParsed (asParsedDue a) (asParsedDue b) = dueCompare a b" for a b
    by (simp add: dueCompareParsed_def dueCompare_def asParsedDue_def split: option.splits)
  then have "sortBy dueCompareParsed (map asParsedDue xs) = map asParsedDue (sortBy dueCompare xs)"
    for xs
    by (rule sortBy_map)
  then show ?thesis
    by (simp add: getDueCardsParsed_def getDueCards_def collectDueParsed_asParsed)
qed

lemma slice0_map: "slice0 limit (map f xs) = map f (slice0 limit xs)"
  by (simp add: slice0_def take_map)

lemma getUpcomingCardsParsed_asParsed:
  "getUpcomingCardsParsed (map asParsed (getReviews ls)) now p cs limit =
     map asParsedUpcoming (getUpcomingCards ls now p cs limit)"
proof -
  have "upcomingCompareParsed (asParsedUpcoming a) (asParsedUpcoming b) = upcomingCompare a b"
    for a b
    by (simp add: upcomingCompareParsed_def upcomingCompare_def asParsedUpcoming_def)
  then have "sortBy upcomingCompareParsed (map asParsedUpcoming xs) =
      map asParsedUpcoming (sortBy upcomingCompare xs)" for xs
    by (rule sortBy_map)
  then show ?thesis
    by (simp add: getUpcomingCardsParsed_def getUpcomingCards_def
        collectUpcomingParsed_asParsed slice0_map)
qed

lemma unreadable_date_not_due:
  assumes "find (parsedReviewOf (flashcardId c) p) rs = Some r" and "parsedNextReview r = None"
  shows "c \<notin> set (map parsedDueFlashcard (collectDueParsed rs now p cs))"
proof (induction cs)
  case Nil
  then show ?case by simp
next
  case (Cons x cs)
  show ?case
  proof (cases "x = c")
    case True
    then show ?thesis using Cons assms by simp
  next
    case False
    then show ?thesis using Cons by (simp split: option.splits)
  qed
qed

lemma unreadable_date_not_upcoming:
  assumes "find (parsedReviewOf (flashcardId c) p) rs = Some r" and "parsedNextReview r = None"
  shows "c \<notin> set (map parsedUpcomingFlashcard (collectUpcomingParsed rs now p cs))"
proof (induction cs)
  case Nil
  then show ?case by simp
next
  case (Cons x cs)
  show ?case
  proof (cases "x = c")
    case True
    then show ?thesis using Cons assms by simp
  next
    case False
    then show ?thesis using Cons by (simp split: option.splits)
  qed
qed

lemma unreadable_date_neither:
  "(case find (parsedReviewOf (flashcardId c') p) rs of
      None \<Rightarrow> False
    | Some r \<Rightarrow> parsedNextReview r = None) \<longrightarrow>
   c' \<notin> set (map parsedDueFlashcard (getDueCardsParsed rs now p cs))
   \<and> c' \<notin> set (map parsedUpcomingFlashcard (getUpcomingCardsParsed rs now p cs limit))"
proof
  assume a: "case find (parsedReviewOf (flashcardId c') p) rs of
      None \<Rightarrow> False
    | Some r \<Rightarrow> parsedNextReview r = None"
  then obtain r where f: "find (parsedReviewOf (flashcardId c') p) rs = Some r"
    and n: "parsedNextReview r = None"
    by (cases "find (parsedReviewOf (flashcardId c') p) rs") simp_all
  have d: "c' \<notin> set (map parsedDueFlashcard (getDueCardsParsed rs now p cs))"
    using unreadable_date_not_due [OF f n, of now cs]
    by (simp add: getDueCardsParsed_def set_sortBy)
  have "set (getUpcomingCardsParsed rs now p cs limit)
      \<subseteq> set (collectUpcomingParsed rs now p cs)"
    using set_slice0 [of limit "sortBy upcomingCompareParsed (collectUpcomingParsed rs now p cs)"]
    by (simp add: getUpcomingCardsParsed_def set_sortBy)
  then have "c' \<notin> set (map parsedUpcomingFlashcard (getUpcomingCardsParsed rs now p cs limit))"
    using unreadable_date_not_upcoming [OF f n, of now cs] by auto
  then show "c' \<notin> set (map parsedDueFlashcard (getDueCardsParsed rs now p cs))
   \<and> c' \<notin> set (map parsedUpcomingFlashcard (getUpcomingCardsParsed rs now p cs limit))"
    using d by simp
qed

text \<open>
  The stored text \<^verbatim>\<open>[{"cardId":"a","studyPackId":"p"}]\<close> is not a list of review
  records, yet nothing throws: \<^verbatim>\<open>getReviews\<close> returns the object with two Invalid
  Dates. Card \<open>a\<close> is then neither due nor upcoming, where a deck with no history has
  it due.
\<close>

theorem shapeless_review_counterexample:
  "getDueCardsParsed shapelessReviews 1000 ''p'' [flashcardOf ''a''] = []
   \<and> getUpcomingCardsParsed shapelessReviews 1000 ''p'' [flashcardOf ''a''] 10 = []
   \<and> map dueFlashcard (getDueCards emptyStorage 1000 ''p'' [flashcardOf ''a''])
       = [flashcardOf ''a'']"
  by (simp add: shapelessReviews_def flashcardOf_def getDueCardsParsed_def
      getUpcomingCardsParsed_def parsedReviewOf_def sortBy_def slice0_def getDueCards_def
      getReviews_def emptyStorage_def toDueCard_def)

text \<open>
  Claim C9, amended. A stored item on which the \<^verbatim>\<open>try\<close> block throws (\<^verbatim>\<open>JSON.parse\<close>
  rejects it, or the parsed value has no \<^verbatim>\<open>map\<close> or holds \<^verbatim>\<open>null\<close>) is the same as no
  item: every operation gives on a storage the result it gives with each such item
  taken as absent, and being a total function it returns a value in every case. With
  such reviews every card of the deck is due as a new card, in deck order, nothing is
  upcoming, the statistics of today count no review, and \<^verbatim>\<open>recordReview\<close> stores the
  review of a new card; with such sessions the streak is 0 and \<^verbatim>\<open>recordReview\<close> stores
  the first session record. A stored list of objects is not checked: on review
  records \<^verbatim>\<open>getDueCards\<close> and \<^verbatim>\<open>getUpcomingCards\<close> are as above, and a card whose stored
  object has no readable \<^verbatim>\<open>nextReview\<close> is neither due nor upcoming.
\<close>

theorem unreadable_storage_is_empty_history:
  "getDueCards ls now p cs = getDueCards (coldStart ls) now p cs
   \<and> getUpcomingCards ls now p cs limit = getUpcomingCards (coldStart ls) now p cs limit
   \<and> recordReview ls tz now p c q = recordReview (coldStart ls) tz now p c q
   \<and> getTodayStats ls tz now p = getTodayStats (coldStart ls) tz now p
   \<and> calculateStreak ls tz now p = calculateStreak (coldStart ls) tz now p
   \<and> deleteData ls p = deleteData (coldStart ls) p
   \<and> (sr_reviews ls = Unreadable \<longrightarrow>
        getDueCards ls now p cs = map (\<lambda>c. toDueCard now c None) cs
      \<and> getUpcomingCards ls now p cs limit = []
      \<and> reviewed (getTodayStats ls tz now p) = 0
      \<and> learned (getTodayStats ls tz now p) = 0
      \<and> accuracy (getTodayStats ls tz now p) = 0
      \<and> getReviews (recordReview ls tz now p c q) = [newReview None now p c q])
   \<and> (sr_sessions ls = Unreadable \<longrightarrow>
        calculateStreak ls tz now p = 0
      \<and> streak (getTodayStats ls tz now p) = 0
      \<and> getSessions (recordReview ls tz now p c q) =
          [\<lparr>sessionPackId = p, date = setHoursZero tz now, cardsReviewed = 1,
            averageQuality = of_int q\<rparr>])
   \<and> getDueCardsParsed (map asParsed (getReviews ls)) now p cs =
       map asParsedDue (getDueCards ls now p cs)
   \<and> getUpcomingCardsParsed (map asParsed (getReviews ls)) now p cs limit =
       map asParsedUpcoming (getUpcomingCards ls now p cs limit)
   \<and> ((case find (parsedReviewOf (flashcardId c') p) rs of
          None \<Rightarrow> False
        | Some r \<Rightarrow> parsedNextReview r = None) \<longrightarrow>
        c' \<notin> set (map parsedDueFlashcard (getDueCardsParsed rs now p cs))
      \<and> c' \<notin> set (map parsedUpcomingFlashcard (getUpcomingCardsParsed rs now p cs limit)))"
proof -
  have a: "getDueCards ls now p cs = getDueCards (coldStart ls) now p cs"
    by (simp add: getDueCards_def getReviews_coldStart)
  have b: "getUpcomingCards ls now p cs limit = getUpcomingCards (coldStart ls) now p cs limit"
    by (simp add: getUpcomingCards_def getReviews_coldStart)
  show ?thesis
    by (intro conjI a b recordReview_coldStart [symmetric] getTodayStats_coldStart [symmetric]
        calculateStreak_coldStart [symmetric] deleteData_coldStart [symmetric]
        unreadable_reviews unreadable_sessions getDueCardsParsed_asParsed
        getUpcomingCardsParsed_asParsed unreadable_date_neither)
qed

theorem unreadable_storage_is_empty_history_witness:
  "sr_reviews unreadableStorage = Unreadable \<and> sr_sessions unreadableStorage = Unreadable
   \<and> coldStart unreadableStorage = emptyStorage
   \<and> map (flashcardId \<circ> dueFlashcard) (getDueCards unreadableStorage 1000 ''p'' exampleDeck)
       = [''a'', ''b'', ''n'']
   \<and> map lastReview (getDueCards unreadableStorage 1000 ''p'' exampleDeck) = [None, None, None]
   \<and> getUpcomingCards unreadableStorage 1000 ''p'' exampleDeck 10 = []
   \<and> getTodayStats unreadableStorage 0 1000 ''p'' =
       \<lparr>reviewed = 0, learned = 0, accuracy = 0, streak = 0\<rparr>
   \<and> calculateStreak unreadableStorage 0 1000 ''p'' = 0
   \<and> deleteData unreadableStorage ''p'' = \<lparr>sr_reviews = Items [], sr_sessions = Items []\<rparr>
   \<and> recordReview unreadableStorage 0 1000 ''p'' ''a'' 3 =
       recordReview emptyStorage 0 1000 ''p'' ''a'' 3
   \<and> getReviews (recordReview unreadableStorage 0 1000 ''p'' ''a'' 3) =
       [\<lparr>cardId = ''a'', studyPackId = ''p'', quality = 3, reviewDate = 1000,
         interval = 6, easeFactor = 2.5, repetitions = 1, nextReview = 518401000\<rparr>]
   \<and> map parsedNextReview shapelessReviews = [None]
   \<and> flashcardOf ''a'' \<notin> set (map parsedDueFlashcard
         (getDueCardsParsed shapelessReviews 1000 ''p'' exampleDeck))
   \<and> flashcardOf ''a'' \<notin> set (map parsedUpcomingFlashcard
         (getUpcomingCardsParsed shapelessReviews 1000 ''p'' exampleDeck 10))"
proof -
  have u: "sr_reviews unreadableStorage = Unreadable" "sr_sessions unreadableStorage = Unreadable"
    by (simp_all add: unreadableStorage_def)
  have c: "coldStart unreadableStorage = emptyStorage"
    by (simp add: coldStart_def unreadableStorage_def emptyStorage_def)
  have n: "newReview None 1000 ''p'' ''a'' 3 =
      \<lparr>cardId = ''a'', studyPackId = ''p'', quality = 3, reviewDate = 1000,
         interval = 6, easeFactor = 2.5, repetitions = 1, nextReview = 518401000\<rparr>"
    by (simp add: newReview_def)
  have d: "deleteData emptyStorage ''p'' = \<lparr>sr_reviews = Items [], sr_sessions = Items []\<rparr>"
    by (simp add: deleteData_def emptyStorage_def getReviews_def getSessions_def)
  have s: "getTodayStats emptyStorage 0 1000 ''p'' =
       \<lparr>reviewed = 0, learned = 0, accuracy = 0, streak = 0\<rparr>"
    by (simp add: getTodayStats_def calculateStreak_def emptyStorage_def getReviews_def
        getSessions_def sortBy_def)
  note t = unreadable_storage_is_empty_history
      [where ls = unreadableStorage and now = 1000 and p = "''p''" and cs = exampleDeck
        and limit = 10 and tz = 0 and c = "''a''" and q = 3 and c' = "flashcardOf ''a''"
        and rs = shapelessReviews]
  have h: "case find (parsedReviewOf (flashcardId (flashcardOf ''a'')) ''p'') shapelessReviews of
      None \<Rightarrow> False
    | Some r \<Rightarrow> parsedNextReview r = None"
    by (simp add: shapelessReviews_def flashcardOf_def parsedReviewOf_def)
  have sh: "map parsedNextReview shapelessReviews = [None]"
    by (simp add: shapelessReviews_def)
  have nd: "flashcardOf ''a'' \<notin> set (map parsedDueFlashcard
         (getDueCardsParsed shapelessReviews 1000 ''p'' exampleDeck))"
    and nu: "flashcardOf ''a'' \<notin> set (map parsedUpcomingFlashcard
         (getUpcomingCardsParsed shapelessReviews 1000 ''p'' exampleDeck 10))"
    using t h by blast+
  have r: "getDueCards unreadableStorage 1000 ''p'' exampleDeck
        = map (\<lambda>c. toDueCard 1000 c None) exampleDeck"
    and up: "getUpcomingCards unreadableStorage 1000 ''p'' exampleDeck 10 = []"
    and rr: "getReviews (recordReview unreadableStorage 0 1000 ''p'' ''a'' 3) =
        [newReview None 1000 ''p'' ''a'' 3]"
    using t u(1) by blast+
  have st: "calculateStreak unreadableStorage 0 1000 ''p'' = 0"
    using t u(2) by blast
  have ts: "getTodayStats unreadableStorage 0 1000 ''p'' =
      getTodayStats (coldStart unreadableStorage) 0 1000 ''p''"
    and dd: "deleteData unreadableStorage ''p'' = deleteData (coldStart unreadableStorage) ''p''"
    and rc: "recordReview unreadableStorage 0 1000 ''p'' ''a'' 3 =
      recordReview (coldStart unreadableStorage) 0 1000 ''p'' ''a'' 3"
    using t by blast+
  have w1: "map (flashcardId \<circ> dueFlashcard) (getDueCards unreadableStorage 1000 ''p'' exampleDeck)
       = [''a'', ''b'', ''n'']"
    and w2: "map lastReview (getDueCards unreadableStorage 1000 ''p'' exampleDeck)
       = [None, None, None]"
    unfolding r by (simp_all add: exampleDeck_def flashcardOf_def toDueCard_def)
  have ts': "getTodayStats unreadableStorage 0 1000 ''p'' =
       \<lparr>reviewed = 0, learned = 0, accuracy = 0, streak = 0\<rparr>"
    using ts c s by simp
  have dd': "deleteData unreadableStorage ''p'' = \<lparr>sr_reviews = Items [], sr_sessions = Items []\<rparr>"
    using dd c d by simp
  have rc': "recordReview unreadableStorage 0 1000 ''p'' ''a'' 3 =
       recordReview emptyStorage 0 1000 ''p'' ''a'' 3"
    using rc c by simp
  have rr': "getReviews (recordReview unreadableStorage 0 1000 ''p'' ''a'' 3) =
       [\<lparr>cardId = ''a'', studyPackId = ''p'', quality = 3, reviewDate = 1000,
         interval = 6, easeFactor = 2.5, repetitions = 1, nextReview = 518401000\<rparr>]"
    using rr n by simp
  show ?thesis
    by (intro conjI u c w1 w2 up ts' st dd' rc' rr' sh nd nu)
qed

end
